theory Spec2Isabelle
  imports
    Complex_Main
    "HOL-Library.Multiset"
    "HOL-Library.Char_ord"
    "HOL-Library.List_Lexorder"
    "HOL-Library.Product_Lexorder"
    "HOL-Library.Log_Nat"
begin

section \<open>Text cells\<close>

text \<open>
  The three pages read their CSV files with \<^verbatim>\<open>dtype=str\<close>: every cell of a raw
  table is either a Python string or the missing marker (NaN). A Python string is a
  sequence of code points; here a \<^typ>\<open>char\<close> stands for one code point in the range
  0..255 (Latin-1), which covers every character the sources name (the c with a cedilla in the
  name of March is code point 0xE7). Code points above 255 are outside the model.
\<close>

type_synonym cell = "string option"

definition c_cedilla :: char where
  "c_cedilla = CHR 0xE7"



definition is_digit :: "char \<Rightarrow> bool" where
  "is_digit c \<longleftrightarrow> c \<in> set ''0123456789''"

definition digit_val :: "char \<Rightarrow> nat" where
  "digit_val c = of_char c - 48"

text \<open>Python's \<^verbatim>\<open>int(ds)\<close> on a string of decimal digits.\<close>

definition int_of_digits :: "string \<Rightarrow> nat" where
  "int_of_digits ds = foldl (\<lambda>n c. 10 * n + digit_val c) 0 ds"

text \<open>
  \<^verbatim>\<open>str.strip()\<close> removes the characters for which \<^verbatim>\<open>str.isspace\<close> holds, at both
  ends: below 256 these are the code points 9..13, 28..32, 0x85 and 0xA0.
\<close>

definition py_isspace :: "char \<Rightarrow> bool" where
  "py_isspace c \<longleftrightarrow>
     (let n = (of_char c :: nat)
      in (9 \<le> n \<and> n \<le> 13) \<or> (28 \<le> n \<and> n \<le> 32) \<or> n = 133 \<or> n = 160)"

definition py_strip :: "string \<Rightarrow> string" where
  "py_strip s = rev (dropWhile py_isspace (rev (dropWhile py_isspace s)))"

text \<open>
  \<^verbatim>\<open>str.lower()\<close> below 256: the letters A..Z and the Latin-1 capitals 0xC0..0xDE
  (0xD7, the multiplication sign, apart) move up by 32; every other code point stays.
\<close>

definition py_lower_char :: "char \<Rightarrow> char" where
  "py_lower_char c =
     (let n = (of_char c :: nat)
      in if (65 \<le> n \<and> n \<le> 90) \<or> (192 \<le> n \<and> n \<le> 222 \<and> n \<noteq> 215)
         then char_of (n + 32) else c)"

definition py_lower :: "string \<Rightarrow> string" where
  "py_lower s = map py_lower_char s"

text \<open>\<^verbatim>\<open>s.replace(a, b)\<close> and \<^verbatim>\<open>Series.str.replace(a, b, regex=False)\<close> for a
  one-character \<^verbatim>\<open>a\<close>: every occurrence of the character is replaced by the string.\<close>

definition str_replace :: "char \<Rightarrow> string \<Rightarrow> string \<Rightarrow> string" where
  "str_replace a b s = concat (map (\<lambda>c. if c = a then b else [c]) s)"

text \<open>\<^verbatim>\<open>str(x)\<close> of a cell: the missing marker prints as \<^verbatim>\<open>nan\<close>.\<close>

definition py_str :: "cell \<Rightarrow> string" where
  "py_str x = (case x of None \<Rightarrow> ''nan'' | Some s \<Rightarrow> s)"

text \<open>\<^verbatim>\<open>Series.fillna("0")\<close> on a text column, cell by cell.\<close>

definition fillna_str :: "string \<Rightarrow> cell \<Rightarrow> string" where
  "fillna_str d x = (case x of None \<Rightarrow> d | Some s \<Rightarrow> s)"

section \<open>Numbers and \<^verbatim>\<open>pandas.to_numeric\<close>\<close>

text \<open>
  A value of a numeric column is a number, one of the two infinities, or NaN (the
  missing marker of a numeric column). Numbers are exact rationals: the rounding of
  IEEE doubles, the 64-bit range and the choice between the integer and the float
  dtype of a column are not modelled.
\<close>

datatype num = Fin rat | PInf | NInf | NaN

text \<open>
  \<^verbatim>\<open>pandas.to_numeric(column, errors="coerce")\<close> converts a text column cell by
  cell. Its string grammar is the one of pandas' \<^verbatim>\<open>precise_xstrtod\<close>: ASCII white
  space, an optional sign, decimal digits with an optional fraction (at least one
  digit in all), an optional exponent (which needs a digit), ASCII white space, end of
  the string. A string that is not in this grammar is one of the spellings of infinity
  (compared without case, with no white space allowed), or it is coerced to NaN.
\<close>

definition isspace_ascii :: "char \<Rightarrow> bool" where
  "isspace_ascii c \<longleftrightarrow> (let n = (of_char c :: nat) in n = 32 \<or> (9 \<le> n \<and> n \<le> 13))"

definition scale10 :: "rat \<Rightarrow> int \<Rightarrow> rat" where
  "scale10 q e = (if 0 \<le> e then q * 10 ^ nat e else q / 10 ^ nat (- e))"

text \<open>The sign in front of a number: whether it is negative, and the rest.\<close>

fun take_sign :: "string \<Rightarrow> bool \<times> string" where
  "take_sign [] = (False, [])"
| "take_sign (c # r) =
     (if c = CHR ''-'' then (True, r) else if c = CHR ''+'' then (False, r) else (False, c # r))"

text \<open>The exponent part: its value and the rest, or nothing when a digit is missing
  after the exponent mark (the scanner then stops on the mark, and the string fails).\<close>

fun take_exponent :: "string \<Rightarrow> (int \<times> string) option" where
  "take_exponent [] = Some (0, [])"
| "take_exponent (c # r) =
     (if c = CHR ''e'' \<or> c = CHR ''E'' then
        (let (neg, r1) = take_sign r;
             ds = takeWhile is_digit r1
         in if ds = [] then None
            else Some ((if neg then - int (int_of_digits ds) else int (int_of_digits ds)),
                       dropWhile is_digit r1))
      else Some (0, c # r))"

definition xstrtod :: "string \<Rightarrow> rat option" where
  "xstrtod s =
     (let (neg, s1) = take_sign (dropWhile isspace_ascii s);
          ip = takeWhile is_digit s1;
          s2 = dropWhile is_digit s1;
          fp = (case s2 of [] \<Rightarrow> [] | c # r \<Rightarrow> if c = CHR ''.'' then takeWhile is_digit r else []);
          s3 = (case s2 of [] \<Rightarrow> [] | c # r \<Rightarrow> if c = CHR ''.'' then dropWhile is_digit r else s2)
      in if ip = [] \<and> fp = [] then None
         else (case take_exponent s3 of
                 None \<Rightarrow> None
               | Some (e, s4) \<Rightarrow>
                   if dropWhile isspace_ascii s4 = []
                   then Some (scale10 (of_nat (int_of_digits (ip @ fp)) * (if neg then - 1 else 1))
                                (e - int (length fp)))
                   else None))"

definition ascii_lower :: "char \<Rightarrow> char" where
  "ascii_lower c =
     (let n = (of_char c :: nat) in if 65 \<le> n \<and> n \<le> 90 then char_of (n + 32) else c)"

definition to_numeric :: "string \<Rightarrow> num" where
  "to_numeric s =
     (case xstrtod s of
        Some q \<Rightarrow> Fin q
      | None \<Rightarrow>
          (let l = map ascii_lower s
           in if l \<in> set [''inf'', ''+inf'', ''infinity'', ''+infinity''] then PInf
              else if l \<in> set [''-inf'', ''-infinity''] then NInf
              else NaN))"

text \<open>\<^verbatim>\<open>to_numeric\<close> on a cell that may be missing: the missing marker stays.\<close>

definition to_numeric_cell :: "cell \<Rightarrow> num" where
  "to_numeric_cell x = (case x of None \<Rightarrow> NaN | Some s \<Rightarrow> to_numeric s)"

text \<open>\<^verbatim>\<open>Series.fillna(0)\<close> on a numeric column, cell by cell.\<close>

definition fillna :: "rat \<Rightarrow> num \<Rightarrow> num" where
  "fillna d v = (case v of NaN \<Rightarrow> Fin d | _ \<Rightarrow> v)"

section \<open>Errors and tables\<close>

text \<open>The exceptions the modelled code can raise, as values.\<close>

datatype pd_error =
    KeyError string
  | ValueError
  | TypeError
  | IntCastingNaNError
  | StrftimeOnMissing
  | RuntimeError string

fun mapE :: "('a \<Rightarrow> 'e + 'b) \<Rightarrow> 'a list \<Rightarrow> 'e + 'b list" where
  "mapE f [] = Inr []"
| "mapE f (x # xs) =
     (case f x of
        Inl e \<Rightarrow> Inl e
      | Inr y \<Rightarrow> (case mapE f xs of Inl e \<Rightarrow> Inl e | Inr ys \<Rightarrow> Inr (y # ys)))"

text \<open>
  A raw table is what \<^verbatim>\<open>pd.read_csv(path, sep=";", dtype=str)\<close> returns: the column
  names in file order, and the rows, each giving the cell of every column. A row is
  only ever read at the names of \<open>columns\<close>.
\<close>

record raw_table =
  columns :: "string list"
  rows :: "(string \<Rightarrow> cell) list"

text \<open>
  \<^verbatim>\<open>astype(int)\<close> on a numeric column: a number is truncated towards zero; NaN or an
  infinity raises.
\<close>

definition trunc0 :: "rat \<Rightarrow> int" where
  "trunc0 q = (if 0 \<le> q then \<lfloor>q\<rfloor> else \<lceil>q\<rceil>)"

definition astype_int :: "num \<Rightarrow> pd_error + int" where
  "astype_int v = (case v of Fin q \<Rightarrow> Inr (trunc0 q) | _ \<Rightarrow> Inl IntCastingNaNError)"

text \<open>Sort keys: in \<^verbatim>\<open>sort_values\<close> a missing value comes last.\<close>

definition na_last :: "cell \<Rightarrow> bool \<times> string" where
  "na_last x = (case x of None \<Rightarrow> (True, []) | Some s \<Rightarrow> (False, s))"

definition num_key :: "num \<Rightarrow> nat \<times> rat" where
  "num_key v = (case v of NInf \<Rightarrow> (0, 0) | Fin q \<Rightarrow> (1, q) | PInf \<Rightarrow> (2, 0) | NaN \<Rightarrow> (3, 0))"

text \<open>
  \<^verbatim>\<open>sort_values\<close> on ONE column uses the default \<^verbatim>\<open>kind="quicksort"\<close>, which pandas
  documents as not stable: the order of rows with equal keys is not fixed by the code.
  Such a sort is modelled by the results it admits: any arrangement of the rows in
  which the keys ascend. (On several columns \<^verbatim>\<open>sort_values\<close> is a stable
  lexicographic sort, modelled by \<^const>\<open>sort_key\<close>.)
\<close>

definition sort_values_admits :: "('a \<Rightarrow> 'k::linorder) \<Rightarrow> 'a list \<Rightarrow> 'a list \<Rightarrow> bool" where
  "sort_values_admits key xs ys \<longleftrightarrow> mset ys = mset xs \<and> sorted (map key ys)"

section \<open>Acquisitions page (\<^verbatim>\<open>1_Aquisicoes_MS.py\<close>)\<close>

record long_row =
  medicamento :: cell
  Ano :: int
  Quantidade :: num

definition year_cols :: "raw_table \<Rightarrow> string list" where
  "year_cols df_raw = filter (\<lambda>c. py_lower c \<noteq> ''medicamento'') (columns df_raw)"

text \<open>
  \<^verbatim>\<open>df_raw.melt(id_vars="medicamento", value_vars=year_cols, var_name="Ano",
  value_name="Quantidade")\<close>: one row per value column and raw row, column by column.
  pandas refuses a table that already has a column called like \<^verbatim>\<open>value_name\<close>, and
  an identifier column that does not exist.
\<close>

definition melt :: "raw_table \<Rightarrow> string list \<Rightarrow> pd_error + (cell \<times> string \<times> cell) list" where
  "melt df_raw value_vars =
     (if ''Quantidade'' \<in> set (columns df_raw) then Inl ValueError
      else if ''medicamento'' \<notin> set (columns df_raw) then Inl (KeyError ''medicamento'')
      else Inr (concat (map (\<lambda>c. map (\<lambda>r. (r ''medicamento'', c, r c)) (rows df_raw)) value_vars)))"

text \<open>Lines 41 to 48: the clean-up of one cell of \<^verbatim>\<open>Quantidade\<close>. After
  \<^verbatim>\<open>fillna("0")\<close> every cell is text, so the \<^verbatim>\<open>astype(str)\<close> of line 44 changes
  nothing.\<close>

definition normalize_quantidade :: "cell \<Rightarrow> num" where
  "normalize_quantidade x =
     fillna 0 (to_numeric (str_replace (CHR '','') ''.'' (str_replace (CHR ''.'') [] (fillna_str ''0'' x))))"

text \<open>Line 54, \<^verbatim>\<open>astype(int)\<close> on the year, for one row that \<^verbatim>\<open>dropna\<close> kept.\<close>

definition mk_long_row :: "cell \<times> num \<times> num \<Rightarrow> pd_error + long_row" where
  "mk_long_row t =
     (case t of (med, a, q) \<Rightarrow>
        (case astype_int a of
           Inl e \<Rightarrow> Inl e
         | Inr y \<Rightarrow> Inr \<lparr>medicamento = med, Ano = y, Quantidade = q\<rparr>))"

definition long_key :: "long_row \<Rightarrow> int \<times> bool \<times> string" where
  "long_key r = (Ano r, na_last (medicamento r))"

text \<open>Lines 21 to 59. The sort of line 57 is on two columns, hence stable.\<close>

definition load_coagulopatias_data :: "raw_table \<Rightarrow> pd_error + long_row list" where
  "load_coagulopatias_data df_raw =
     (case melt df_raw (year_cols df_raw) of
        Inl e \<Rightarrow> Inl e
      | Inr df \<Rightarrow>
          (let cleaned = map (\<lambda>(med, a, q). (med, to_numeric a, normalize_quantidade q)) df;
               kept = filter (\<lambda>(med, a, q). a \<noteq> NaN) cleaned
           in case mapE mk_long_row kept of
                Inl e \<Rightarrow> Inl e
              | Inr typed \<Rightarrow> Inr (sort_key long_key typed)))"

section \<open>Distribution page (\<^verbatim>\<open>Hemo_8R.py\<close>)\<close>

subsection \<open>The period parser\<close>

text \<open>A calendar date: year, month, day. The order of the triples is the order of time.\<close>

type_synonym date = "int \<times> nat \<times> nat"

definition meses :: "(string \<times> nat) list" where
  "meses =
     [(''janeiro'', 1), (''fevereiro'', 2), (''mar'' @ [c_cedilla] @ ''o'', 3), (''marco'', 3),
      (''abril'', 4), (''maio'', 5), (''junho'', 6), (''julho'', 7), (''agosto'', 8),
      (''setembro'', 9), (''outubro'', 10), (''novembro'', 11), (''dezembro'', 12)]"

text \<open>The character class \<^verbatim>\<open>[a-z\<close>c-cedilla\<^verbatim>\<open>]\<close> of the pattern.\<close>

definition is_month_char :: "char \<Rightarrow> bool" where
  "is_month_char c \<longleftrightarrow> (CHR ''a'' \<le> c \<and> c \<le> CHR ''z'') \<or> c = c_cedilla"

text \<open>\<^verbatim>\<open>\d{n}\<close> at the start of a string: the n digits it matches, if it matches.\<close>

definition digits_prefix :: "nat \<Rightarrow> string \<Rightarrow> string option" where
  "digits_prefix n s =
     (if n \<le> length s \<and> list_all is_digit (take n s) then Some (take n s) else None)"

text \<open>
  \<^verbatim>\<open>re.match(r"([a-z\<close>c-cedilla\<^verbatim>\<open>]+)\/?(\d{2}|\d{4})", s)\<close>, giving the two groups. The
  match is anchored at the start and not at the end. The letters, the slash and the
  digits are disjoint classes, so the only way to match is: the longest run of letters
  (one at least), the slash if it is there, then the digits; a shorter run of letters
  would have to be followed by a letter where a slash or a digit is needed. The
  alternatives of the second group are tried from left to right, and since the
  pattern ends with the group, the first one that matches is the result.
\<close>

definition re_match_periodo :: "string \<Rightarrow> (string \<times> string) option" where
  "re_match_periodo s =
     (let g1 = takeWhile is_month_char s;
          r1 = dropWhile is_month_char s;
          r2 = (case r1 of [] \<Rightarrow> [] | c # r \<Rightarrow> if c = CHR ''/'' then r else r1)
      in if g1 = [] then None
         else (case digits_prefix 2 r2 of
                 Some g2 \<Rightarrow> Some (g1, g2)
               | None \<Rightarrow>
                   (case digits_prefix 4 r2 of
                      Some g2 \<Rightarrow> Some (g1, g2)
                    | None \<Rightarrow> None)))"

text \<open>
  \<^verbatim>\<open>parse_periodo\<close>; \<open>None\<close> is \<^verbatim>\<open>pd.NaT\<close>. \<^verbatim>\<open>dt.date(ano, mes, 1)\<close> raises for a
  year outside 1..9999 or a month outside 1..12; lemma \<open>parse_periodo_date_valid\<close>
  below shows that the function never calls it with such arguments.
\<close>

definition parse_periodo :: "cell \<Rightarrow> date option" where
  "parse_periodo x =
     (let s = py_lower (py_strip (py_str x))
      in case re_match_periodo s of
           None \<Rightarrow> None
         | Some (g1, g2) \<Rightarrow>
             (let mon = str_replace c_cedilla ''c'' g1;
                  ano = int (int_of_digits g2);
                  ano = (if ano < 100 then 2000 + ano else ano)
              in case map_of meses mon of
                   None \<Rightarrow> None
                 | Some mes \<Rightarrow> if mes = 0 then None else Some (ano, mes, 1)))"

subsection \<open>The loader of the distribution by service\<close>





text \<open>Lines 33 to 39: the clean-up of one cell of a UI column.\<close>

definition normalize_ui :: "cell \<Rightarrow> pd_error + int" where
  "normalize_ui x =
     astype_int (fillna 0 (to_numeric (py_strip (str_replace (CHR ''.'') [] (fillna_str ''0'' x)))))"

record hemo_row =
  periodo_de_saida :: cell
  servico_de_saude :: cell
  ui_250 :: int
  ui_500 :: int
  ui_1000 :: int
  ui_1500 :: int
  total_geral :: int
  periodo :: "date option"

definition bindE :: "'e + 'a \<Rightarrow> ('a \<Rightarrow> 'e + 'b) \<Rightarrow> 'e + 'b" where
  "bindE m f = (case m of Inl e \<Rightarrow> Inl e | Inr x \<Rightarrow> f x)"




subsection \<open>The page: KPIs and ranking\<close>







text \<open>
  \<^verbatim>\<open>df.groupby("Servico de Saude")["Total Geral"].sum().reset_index()\<close>: one row per
  service, the services in ascending order; rows with a missing service are left out.
\<close>

definition groupby_sum :: "hemo_row list \<Rightarrow> (string \<times> int) list" where
  "groupby_sum df =
     map (\<lambda>k. (k, sum_list (map total_geral (filter (\<lambda>r. servico_de_saude r = Some k) df))))
       (sort (remdups (List.map_filter servico_de_saude df)))"

text \<open>
  Lines 149 to 155: \<^verbatim>\<open>.sort_values("Total Geral", ascending=False).head(top_n)\<close>. The
  sort is on one column with the default kind, so the ranking is given by the results
  it admits.
\<close>

definition rank_admits :: "hemo_row list \<Rightarrow> nat \<Rightarrow> (string \<times> int) list \<Rightarrow> bool" where
  "rank_admits df top_n res \<longleftrightarrow>
     (\<exists>ys. sort_values_admits (\<lambda>p. - snd p) (groupby_sum df) ys \<and> res = take top_n ys)"

text \<open>The ranking as the specification words it: a stable descending sort, so that
  services with equal totals keep the order of the grouped table.\<close>

definition spec_rank :: "hemo_row list \<Rightarrow> nat \<Rightarrow> (string \<times> int) list" where
  "spec_rank df top_n = take top_n (sort_key (\<lambda>p. - snd p) (groupby_sum df))"

subsection \<open>The loader of the Ministry of Health file\<close>

record ms_row =
  ms_source :: "string \<Rightarrow> cell"
  ms_Ano :: num
  ms_Quantidade :: num

definition rename_ms :: "string \<Rightarrow> string" where
  "rename_ms c = (if c = ''ano'' then ''Ano'' else if c = ''quantidade'' then ''Quantidade'' else c)"

text \<open>
  \<^verbatim>\<open>df[name]\<close> after the renaming, as the name the column has in the file: a name
  no column has raises KeyError; a name two columns have selects a table instead of a
  column, which \<^verbatim>\<open>pd.to_numeric\<close> refuses.
\<close>

definition select_column :: "raw_table \<Rightarrow> string \<Rightarrow> pd_error + string" where
  "select_column df name =
     (case filter (\<lambda>c. rename_ms c = name) (columns df) of
        [] \<Rightarrow> Inl (KeyError name)
      | [c] \<Rightarrow> Inr c
      | _ \<Rightarrow> Inl TypeError)"

text \<open>Lines 72 to 76 up to \<^verbatim>\<open>dropna()\<close>, which drops a row with a missing value in any
  column.\<close>

definition ms_clean :: "raw_table \<Rightarrow> pd_error + ms_row list" where
  "ms_clean df =
     bindE (select_column df ''Ano'') (\<lambda>a.
     bindE (select_column df ''Quantidade'') (\<lambda>q.
       Inr (filter
              (\<lambda>r. ms_Ano r \<noteq> NaN \<and> ms_Quantidade r \<noteq> NaN \<and>
                   list_all (\<lambda>c. c = a \<or> c = q \<or> ms_source r c \<noteq> None) (columns df))
              (map (\<lambda>r. \<lparr>ms_source = r, ms_Ano = to_numeric_cell (r a),
                          ms_Quantidade = to_numeric_cell (r q)\<rparr>)
                 (rows df)))))"

text \<open>The whole of \<^verbatim>\<open>load_ms_data\<close>: the final \<^verbatim>\<open>sort_values("Ano")\<close> is on one column.\<close>

definition load_ms_data_admits :: "raw_table \<Rightarrow> pd_error + ms_row list \<Rightarrow> bool" where
  "load_ms_data_admits df res \<longleftrightarrow>
     (case ms_clean df of
        Inl e \<Rightarrow> res = Inl e
      | Inr xs \<Rightarrow> (\<exists>ys. res = Inr ys \<and> sort_values_admits (\<lambda>r. num_key (ms_Ano r)) xs ys))"

section \<open>Emicizumab page (\<^verbatim>\<open>2_Emicizumabe.py\<close>)\<close>

text \<open>
  \<^verbatim>\<open>pd.read_csv\<close> is the library's and the file system's: it is a parameter \<open>read_csv\<close>
  of the model, from the path and the separator (\<open>None\<close> for \<^verbatim>\<open>sep=None,
  engine="python"\<close>, the sniffing reader) to the table read with \<^verbatim>\<open>dtype=str\<close> or the
  exception raised.
\<close>

type_synonym sep = "char option"




section \<open>Definitions that follow the specification's words\<close>

text \<open>
  The numeric normalizer as the specification describes it: missing or empty is read
  as \<^verbatim>\<open>"0"\<close>, every dot is removed, every comma becomes a dot, the text is parsed as
  a number, and what still does not parse is 0.
\<close>

definition spec_normalize_quantity :: "cell \<Rightarrow> num" where
  "spec_normalize_quantity x =
     (let t = (case x of None \<Rightarrow> ''0'' | Some s \<Rightarrow> if s = [] then ''0'' else s);
          t = filter (\<lambda>c. c \<noteq> CHR ''.'') t;
          t = map (\<lambda>c. if c = CHR '','' then CHR ''.'' else c) t
      in case to_numeric t of NaN \<Rightarrow> Fin 0 | v \<Rightarrow> v)"

text \<open>
  The exact sum of values: numbers add as rationals, with no rounding; on the special
  values the sum is the one of IEEE doubles (NaN absorbs, the two infinities add to
  NaN, an infinity absorbs a number). This is the sum of the values as numbers, not
  the sum a float64 column computes, which rounds after every addition and is defined
  further down (\<open>float64_sum\<close>).
\<close>

fun num_add :: "num \<Rightarrow> num \<Rightarrow> num" where
  "num_add NaN _ = NaN"
| "num_add _ NaN = NaN"
| "num_add PInf NInf = NaN"
| "num_add NInf PInf = NaN"
| "num_add PInf _ = PInf"
| "num_add _ PInf = PInf"
| "num_add NInf _ = NInf"
| "num_add _ NInf = NInf"
| "num_add (Fin a) (Fin b) = Fin (a + b)"

instantiation num :: comm_monoid_add
begin

definition zero_num :: num where
  "zero_num = Fin 0"

definition plus_num :: "num \<Rightarrow> num \<Rightarrow> num" where
  "plus_num a b = num_add a b"

instance
proof
  fix a b c :: num
  show "a + b + c = a + (b + c)"
    unfolding plus_num_def by (cases a; cases b; cases c) simp_all
  show "a + b = b + a"
    unfolding plus_num_def by (cases a; cases b) simp_all
  show "0 + a = a"
    unfolding plus_num_def zero_num_def by (cases a) simp_all
qed

end

text \<open>The value columns the reshape keeps: the columns that are not the identifier and
  whose header parses as a number.\<close>

definition kept_year_cols :: "raw_table \<Rightarrow> string list" where
  "kept_year_cols df_raw = filter (\<lambda>c. to_numeric c \<noteq> NaN) (year_cols df_raw)"

text \<open>The sum of one raw (wide) row over those columns, each cell normalized.\<close>

definition wide_row_sum :: "raw_table \<Rightarrow> (string \<Rightarrow> cell) \<Rightarrow> num" where
  "wide_row_sum df_raw r = sum_list (map (\<lambda>c. normalize_quantidade (r c)) (kept_year_cols df_raw))"

section \<open>Sums of a float64 column\<close>

text \<open>
  A \<^verbatim>\<open>Quantidade\<close> column with a fractional value is a float64 column. A double is
  modelled by the rational it denotes, and the rounding of an exact result to the
  nearest double (53 significant bits, ties to the even mantissa) by \<open>to_float64\<close>.
  The exponent range is not bounded: overflow to infinity and subnormal numbers are
  outside the model. The sum of a column is taken from left to right, starting from 0,
  each addition rounded; the cells themselves are the doubles nearest to the parsed
  decimals.
\<close>

definition pow2 :: "int \<Rightarrow> rat" where
  "pow2 e = (if 0 \<le> e then 2 ^ nat e else 1 / 2 ^ nat (- e))"

definition round_half_even :: "rat \<Rightarrow> int" where
  "round_half_even x =
     (let f = \<lfloor>x\<rfloor>; r = x - of_int f
      in if r < 1 / 2 then f else if 1 / 2 < r then f + 1 else if even f then f else f + 1)"

definition float64_exponent :: "rat \<Rightarrow> int" where
  "float64_exponent q =
     (let (n, d) = quotient_of \<bar>q\<bar>; k = bitlen n - bitlen d
      in (if pow2 k \<le> \<bar>q\<bar> then k else k - 1) - 52)"

definition to_float64 :: "rat \<Rightarrow> rat" where
  "to_float64 q =
     (if q = 0 then 0
      else (let e = float64_exponent q in of_int (round_half_even (q / pow2 e)) * pow2 e))"

fun float64_add :: "num \<Rightarrow> num \<Rightarrow> num" where
  "float64_add (Fin a) (Fin b) = Fin (to_float64 (a + b))"
| "float64_add a b = num_add a b"

definition as_float64 :: "num \<Rightarrow> num" where
  "as_float64 v = (case v of Fin q \<Rightarrow> Fin (to_float64 q) | _ \<Rightarrow> v)"

definition float64_sum :: "num list \<Rightarrow> num" where
  "float64_sum vs = foldl float64_add (Fin 0) (map as_float64 vs)"

text \<open>A value that is an integer, and the absolute value of a number.\<close>

definition int_valued :: "num \<Rightarrow> bool" where
  "int_valued v = (case v of Fin q \<Rightarrow> q = of_int \<lfloor>q\<rfloor> | _ \<Rightarrow> False)"

definition magnitude :: "num \<Rightarrow> rat" where
  "magnitude v = (case v of Fin q \<Rightarrow> \<bar>q\<bar> | _ \<Rightarrow> 0)"

section \<open>The cells of the long table\<close>

text \<open>
  The rows of \<^verbatim>\<open>load_coagulopatias_data\<close> after the clean-up and \<^verbatim>\<open>dropna\<close>, before
  the cast of the year and the sort: column by column over the kept value columns,
  each raw row giving its identifier, the number of the header and the normalized cell.
\<close>

definition long_cells :: "raw_table \<Rightarrow> (cell \<times> num \<times> num) list" where
  "long_cells df_raw =
     concat (map (\<lambda>c. map (\<lambda>r. (r ''medicamento'', to_numeric c, normalize_quantidade (r c)))
                        (rows df_raw))
               (kept_year_cols df_raw))"

text \<open>The quantities of one identifier: in the long table, in table order; and in the raw
  (wide) table, row by row in file order, each row across the kept value columns.\<close>

definition long_values :: "long_row list \<Rightarrow> cell \<Rightarrow> num list" where
  "long_values long ident = map Quantidade (filter (\<lambda>r. medicamento r = ident) long)"

definition wide_values :: "raw_table \<Rightarrow> cell \<Rightarrow> num list" where
  "wide_values df_raw ident =
     concat (map (\<lambda>r. map (\<lambda>c. normalize_quantidade (r c)) (kept_year_cols df_raw))
               (filter (\<lambda>r. r ''medicamento'' = ident) (rows df_raw)))"

text \<open>The rows in the order of the melt: column by column over the kept value columns in
  file order, each column over the raw rows in file order.\<close>

definition year_of_header :: "string \<Rightarrow> int" where
  "year_of_header c = (case to_numeric c of Fin y \<Rightarrow> trunc0 y | _ \<Rightarrow> 0)"

definition melted_rows :: "raw_table \<Rightarrow> long_row list" where
  "melted_rows df_raw =
     concat (map (\<lambda>c. map (\<lambda>r. \<lparr>medicamento = r ''medicamento'', Ano = year_of_header c,
                                   Quantidade = normalize_quantidade (r c)\<rparr>)
                        (rows df_raw))
               (kept_year_cols df_raw))"

section \<open>Example tables\<close>

text \<open>A Ministry of Health file with a grouped quantity and a decimal comma.\<close>

definition ms_row1 :: "string \<Rightarrow> cell" where
  "ms_row1 = (\<lambda>_. None)(''ano'' := Some ''2020'', ''quantidade'' := Some ''3.100'')"
definition ms_row2 :: "string \<Rightarrow> cell" where
  "ms_row2 = (\<lambda>_. None)(''ano'' := Some ''2019'', ''quantidade'' := Some ''1,5'')"
definition ms_example :: raw_table where
  "ms_example = \<lparr>columns = [''ano'', ''quantidade''], rows = [ms_row1, ms_row2]\<rparr>"



text \<open>Acquisition files: one raw row read under several column layouts (two headers
  that spell the same year; a negative and an infinite quantity), and a file with a
  repeated identifier.\<close>

definition acq_row_a :: "string \<Rightarrow> cell" where
  "acq_row_a = (\<lambda>_. None)(''medicamento'' := Some ''Fator VIII'', ''2019'' := Some ''5'',
      ''2019.0'' := Some ''7'', ''2020'' := Some ''-5'', ''2021'' := Some ''inf'', ''Obs'' := Some ''1.234,56'')"

definition tie_table :: raw_table where
  "tie_table = \<lparr>columns = [''medicamento'', ''2019'', ''2019.0''], rows = [acq_row_a]\<rparr>"

definition tie_table_swapped :: raw_table where
  "tie_table_swapped = \<lparr>columns = [''medicamento'', ''2019.0'', ''2019''], rows = [acq_row_a]\<rparr>"

definition tie_table_moved :: raw_table where
  "tie_table_moved = \<lparr>columns = [''2019'', ''2019.0'', ''medicamento''], rows = [acq_row_a]\<rparr>"

definition signed_table :: raw_table where
  "signed_table = \<lparr>columns = [''2020'', ''Obs'', ''medicamento'', ''2021''], rows = [acq_row_a]\<rparr>"

definition wide_row_1 :: "string \<Rightarrow> cell" where
  "wide_row_1 = (\<lambda>_. None)(''medicamento'' := Some ''Fator IX'', ''2019'' := Some ''3.100'',
      ''2020'' := Some ''1.234,56'', ''Obs'' := Some ''7'')"

definition wide_row_2 :: "string \<Rightarrow> cell" where
  "wide_row_2 = (\<lambda>_. None)(''medicamento'' := Some ''Fator VIII'', ''2019'' := Some ''abc'',
      ''2020'' := Some ''10'')"

definition wide_row_3 :: "string \<Rightarrow> cell" where
  "wide_row_3 = (\<lambda>_. None)(''medicamento'' := Some ''Fator IX'', ''2019'' := Some ''1'')"

definition wide_example :: raw_table where
  "wide_example = \<lparr>columns = [''2020'', ''medicamento'', ''Obs'', ''2019''],
                   rows = [wide_row_1, wide_row_2, wide_row_3]\<rparr>"

text \<open>An acquisition file with fractional quantities, the years from right to left; and
  the file with the negative quantity under another column order.\<close>

definition frac_row :: "string \<Rightarrow> cell" where
  "frac_row = (\<lambda>_. None)(''medicamento'' := Some ''Fator IX'', ''2021'' := Some ''0,1'',
      ''2020'' := Some ''0,2'', ''2019'' := Some ''0,3'')"

definition frac_table :: raw_table where
  "frac_table = \<lparr>columns = [''medicamento'', ''2021'', ''2020'', ''2019''], rows = [frac_row]\<rparr>"

definition signed_table_permuted :: raw_table where
  "signed_table_permuted = \<lparr>columns = [''2021'', ''medicamento'', ''2020'', ''Obs''], rows = [acq_row_a]\<rparr>"

text \<open>Distribution tables for the ranking: the totals A:50, B:30, C:80, D:10 of the
  specification, and seventeen services with equal totals.\<close>

definition svc_row :: "string \<Rightarrow> int \<Rightarrow> hemo_row" where
  "svc_row s t =
     \<lparr>periodo_de_saida = Some ''janeiro/19'', servico_de_saude = Some s, ui_250 = t, ui_500 = 0,
      ui_1000 = 0, ui_1500 = 0, total_geral = t, periodo = Some (2019, 1, 1)\<rparr>"

definition rank_example :: "hemo_row list" where
  "rank_example = [svc_row ''C'' 80, svc_row ''A'' 20, svc_row ''B'' 30, svc_row ''A'' 30,
                   svc_row ''D'' 10]"

definition tied_services :: "string list" where
  "tied_services = [''S01'', ''S02'', ''S03'', ''S04'', ''S05'', ''S06'', ''S07'', ''S08'', ''S09'',
                    ''S10'', ''S11'', ''S12'', ''S13'', ''S14'', ''S15'', ''S16'', ''S17'']"

definition rank_tie_example :: "hemo_row list" where
  "rank_tie_example = map (\<lambda>s. svc_row s 50) tied_services"





section \<open>Facts about the text functions\<close>

lemmas text_defs = py_str_def py_strip_def py_isspace_def py_lower_def py_lower_char_def
  str_replace_def int_of_digits_def digit_val_def is_digit_def fillna_str_def

lemmas num_defs = to_numeric_def to_numeric_cell_def xstrtod_def isspace_ascii_def scale10_def
  ascii_lower_def fillna_def

lemmas ui_defs = normalize_ui_def astype_int_def trunc0_def

lemmas periodo_defs = parse_periodo_def re_match_periodo_def is_month_char_def less_eq_char_def
  c_cedilla_def digits_prefix_def meses_def

lemma digit_facts:
  assumes "is_digit d"
  shows "\<not> is_month_char d" "\<not> py_isspace d" "py_lower_char d = d" "d \<noteq> CHR ''/''" "digit_val d \<le> 9"
  using assms
  by (auto simp: is_digit_def is_month_char_def less_eq_char_def c_cedilla_def py_isspace_def
      py_lower_char_def digit_val_def)

lemma month_char_facts:
  assumes "is_month_char c"
  shows "\<not> py_isspace c" "py_lower_char c = c"
  using assms
  by (auto simp: is_month_char_def less_eq_char_def c_cedilla_def py_isspace_def py_lower_char_def Let_def)

lemma slash_facts:
  "\<not> is_month_char (CHR ''/'')" "\<not> py_isspace (CHR ''/'')" "py_lower_char (CHR ''/'') = CHR ''/''"
  "\<not> is_digit (CHR ''/'')"
  by (simp_all add: is_month_char_def less_eq_char_def c_cedilla_def py_isspace_def py_lower_char_def is_digit_def)

lemma meses_facts:
  assumes "(m, k) \<in> set meses"
  shows "m \<noteq> []" "list_all is_month_char m" "map_of meses (str_replace c_cedilla ''c'' m) = Some k"
    "1 \<le> k" "k \<le> 12"
  using assms
  by (auto simp: meses_def is_month_char_def less_eq_char_def c_cedilla_def str_replace_def)

lemma py_strip_keeps_prefix:
  assumes "a \<noteq> []" "\<not> py_isspace (hd a)" "\<not> py_isspace (last a)"
  shows "\<exists>b'. py_strip (a @ b) = a @ b'"
proof -
  have 1: "dropWhile py_isspace (a @ b) = a @ b"
    using assms(1,2) by (cases a) auto
  have 2: "dropWhile py_isspace (rev a) = rev a"
    using assms(1,3) by (cases "rev a") (auto simp: last_rev hd_rev dest: arg_cong[where f=hd])
  have "dropWhile py_isspace (rev b @ rev a) =
          (if \<forall>x \<in> set (rev b). py_isspace x then rev a else dropWhile py_isspace (rev b) @ rev a)"
    using 2 by (simp add: dropWhile_append)
  then show ?thesis
    by (auto simp: py_strip_def 1)
qed

section \<open>The period parser\<close>

lemma re_match_periodo_prefix:
  assumes m: "m \<noteq> []" "list_all is_month_char m"
    and sep: "sep = [] \<or> sep = ''/''" and d: "is_digit d1" "is_digit d2"
  shows "re_match_periodo (m @ sep @ d1 # d2 # r) = Some (m, [d1, d2])"
proof -
  have all: "\<And>x. x \<in> set m \<Longrightarrow> is_month_char x"
    using m(2) by (simp add: list_all_iff)
  have stop: "takeWhile is_month_char (sep @ d1 # d2 # r) = []"
             "dropWhile is_month_char (sep @ d1 # d2 # r) = sep @ d1 # d2 # r"
    using sep digit_facts(1)[OF d(1)] slash_facts(1) by auto
  have tw: "takeWhile is_month_char (m @ sep @ d1 # d2 # r) = m"
    using all stop by (simp add: takeWhile_append2)
  have dw: "dropWhile is_month_char (m @ sep @ d1 # d2 # r) = sep @ d1 # d2 # r"
    using all stop by (simp add: dropWhile_append2)
  have r2: "(case sep @ d1 # d2 # r of [] \<Rightarrow> [] | c # t \<Rightarrow> if c = CHR ''/'' then t else sep @ d1 # d2 # r)
            = d1 # d2 # r"
    using sep digit_facts(4)[OF d(1)] by auto
  have dp: "digits_prefix 2 (d1 # d2 # r) = Some [d1, d2]"
    using d by (simp add: digits_prefix_def numeral_2_eq_2)
  show ?thesis
    unfolding re_match_periodo_def Let_def tw dw r2 dp using m(1) by simp
qed

lemma parse_periodo_prefix:
  assumes mk: "(m, k) \<in> set meses" and sep: "sep = [] \<or> sep = ''/''"
    and d: "is_digit d1" "is_digit d2"
  shows "parse_periodo (Some (m @ sep @ d1 # d2 # rest))
         = Some (2000 + int (10 * digit_val d1 + digit_val d2), k, 1)"
proof -
  note mf = meses_facts[OF mk]
  let ?a = "m @ sep @ [d1, d2]"
  have mc: "\<And>x. x \<in> set m \<Longrightarrow> is_month_char x"
    using mf(2) by (simp add: list_all_iff)
  have "hd ?a = hd m" using mf(1) by simp
  moreover have "is_month_char (hd m)" using mf(1) mc by simp
  ultimately have h: "\<not> py_isspace (hd ?a)" using month_char_facts(1) by simp
  have l: "\<not> py_isspace (last ?a)" using digit_facts(2)[OF d(2)] by simp
  obtain b' where st: "py_strip (?a @ rest) = ?a @ b'"
    using py_strip_keeps_prefix[of ?a rest] h l by auto
  have lowm: "map py_lower_char m = m"
    using mc month_char_facts(2) by (simp add: map_idI)
  have lows: "map py_lower_char sep = sep"
    using sep slash_facts(3) by auto
  have low: "py_lower (?a @ b') = m @ sep @ d1 # d2 # py_lower b'"
    using lowm lows digit_facts(3)[OF d(1)] digit_facts(3)[OF d(2)] by (simp add: py_lower_def)
  have s: "py_lower (py_strip (py_str (Some (m @ sep @ d1 # d2 # rest)))) = m @ sep @ d1 # d2 # py_lower b'"
    using st low by (simp add: py_str_def)
  have re: "re_match_periodo (m @ sep @ d1 # d2 # py_lower b') = Some (m, [d1, d2])"
    using re_match_periodo_prefix[OF mf(1) mf(2) sep d] .
  have yr: "int_of_digits [d1, d2] = 10 * digit_val d1 + digit_val d2"
    by (simp add: int_of_digits_def)
  have lt: "10 * digit_val d1 + digit_val d2 < 100"
    using digit_facts(5)[OF d(1)] digit_facts(5)[OF d(2)] by simp
  show ?thesis
    unfolding parse_periodo_def s Let_def re using mf(3) mf(4) yr lt by simp
qed

lemma digits_prefix_4_imp_2:
  "digits_prefix 2 s = None \<Longrightarrow> digits_prefix 4 s = None"
proof -
  assume a: "digits_prefix 2 s = None"
  show ?thesis
  proof (rule ccontr)
    assume "digits_prefix 4 s \<noteq> None"
    then have 4: "4 \<le> length s" "list_all is_digit (take 4 s)"
      by (auto simp: digits_prefix_def split: if_splits)
    have "set (take 2 s) \<subseteq> set (take 4 s)" by (rule set_take_subset_set_take) simp
    with 4 have "2 \<le> length s \<and> list_all is_digit (take 2 s)"
      by (auto simp: list_all_iff)
    with a show False by (simp add: digits_prefix_def)
  qed
qed

lemma digits_prefix_2_value:
  assumes "digits_prefix 2 s = Some g"
  shows "int_of_digits g < 100"
proof -
  from assms have l: "2 \<le> length s" and dg: "list_all is_digit (take 2 s)" and g: "g = take 2 s"
    by (auto simp: digits_prefix_def split: if_splits)
  from l obtain a b r where s: "s = a # b # r"
    by (cases s; cases "tl s") auto
  with dg g have "is_digit a" "is_digit b" "g = [a, b]" by (auto simp: numeral_2_eq_2)
  then show ?thesis
    using digit_facts(5)[of a] digit_facts(5)[of b] by (simp add: int_of_digits_def)
qed

lemma parse_periodo_date_valid:
  assumes "parse_periodo x = Some (y, mo, d)"
  shows "2000 \<le> y \<and> y \<le> 2099 \<and> 1 \<le> mo \<and> mo \<le> 12 \<and> d = 1"
proof -
  let ?s = "py_lower (py_strip (py_str x))"
  from assms obtain g1 g2 where re: "re_match_periodo ?s = Some (g1, g2)"
    by (auto simp: parse_periodo_def Let_def split: option.splits)
  then obtain t where g2: "digits_prefix 2 t = Some g2"
    using digits_prefix_4_imp_2
    by (fastforce simp: re_match_periodo_def Let_def split: option.splits if_splits list.splits)
  have lt: "int_of_digits g2 < 100" using digits_prefix_2_value[OF g2] .
  from assms re obtain mes where
    mes: "map_of meses (str_replace c_cedilla ''c'' g1) = Some mes"
    and res: "(y, mo, d) = (2000 + int (int_of_digits g2), mes, 1)"
    using lt by (auto simp: parse_periodo_def Let_def split: option.splits if_splits)
  from mes have "(str_replace c_cedilla ''c'' g1, mes) \<in> set meses" by (rule map_of_SomeD)
  then have "1 \<le> mes \<and> mes \<le> 12" using meses_facts(4,5) by blast
  with res lt show ?thesis by auto
qed

lemma re_match_periodo_group2:
  assumes "re_match_periodo s = Some (g1, g2)"
  shows "length g2 = 2 \<and> list_all is_digit g2"
proof -
  from assms obtain t where "digits_prefix 2 t = Some g2"
    using digits_prefix_4_imp_2
    by (fastforce simp: re_match_periodo_def Let_def split: option.splits if_splits list.splits)
  then show ?thesis
    by (auto simp: digits_prefix_def split: if_splits)
qed

text \<open>
  C2. The period parser maps \<^verbatim>\<open>janeiro/19\<close> to the first day of January 2019 and
  gives no date for \<^verbatim>\<open>xyz/19\<close>; but for \<^verbatim>\<open>dezembro/2023\<close> it returns the first day of
  December 2020, not of December 2023: the two-digit alternative of the pattern
  matches the \<^verbatim>\<open>20\<close> of \<^verbatim>\<open>2023\<close>, and 20 is windowed to 2020.
\<close>

theorem parse_periodo_four_digit_year:
  "parse_periodo (Some ''dezembro/2023'') = Some (2020, 12, 1)
   \<and> parse_periodo (Some ''dezembro/2023'') \<noteq> Some (2023, 12, 1)
   \<and> parse_periodo (Some ''janeiro/19'') = Some (2019, 1, 1)
   \<and> parse_periodo (Some ''xyz/19'') = None"
  by (simp add: text_defs periodo_defs)

text \<open>
  C8. \<^verbatim>\<open>parse_periodo\<close> matches a prefix, with an optional slash: a string that starts
  with a month name of the table, then a slash or nothing, then two digits, parses,
  whatever follows; the year is 2000 plus the number the first two digits spell. The
  second group of a match always has exactly two digits, the four-digit alternative
  matches only where the two-digit one does (so it is never the one taken), and every
  parsed year lies in 2000..2099. So \<^verbatim>\<open>janeiro19\<close> is January 2019 and the year
  written \<^verbatim>\<open>2023\<close> is read as 2020.
\<close>

theorem parse_periodo_prefix_two_digits:
  "(\<forall>m k sep d1 d2 rest.
      (m, k) \<in> set meses \<and> (sep = [] \<or> sep = ''/'') \<and> is_digit d1 \<and> is_digit d2 \<longrightarrow>
      parse_periodo (Some (m @ sep @ d1 # d2 # rest))
        = Some (2000 + int (10 * digit_val d1 + digit_val d2), k, 1))
   \<and> (\<forall>s g1 g2. re_match_periodo s = Some (g1, g2) \<longrightarrow> length g2 = 2)
   \<and> (\<forall>s. digits_prefix 2 s = None \<longrightarrow> digits_prefix 4 s = None)
   \<and> (\<forall>x y mo d. parse_periodo x = Some (y, mo, d) \<longrightarrow> 2000 \<le> y \<and> y \<le> 2099)
   \<and> parse_periodo (Some ''janeiro19'') = Some (2019, 1, 1)
   \<and> parse_periodo (Some ''dezembro/2023'') = Some (2020, 12, 1)"
proof (intro conjI allI impI)
  fix m k sep d1 d2 rest
  assume "(m, k) \<in> set meses \<and> (sep = [] \<or> sep = ''/'') \<and> is_digit d1 \<and> is_digit d2"
  then show "parse_periodo (Some (m @ sep @ d1 # d2 # rest))
        = Some (2000 + int (10 * digit_val d1 + digit_val d2), k, 1)"
    using parse_periodo_prefix by blast
next
  fix s g1 g2 assume "re_match_periodo s = Some (g1, g2)"
  then show "length g2 = 2" using re_match_periodo_group2 by blast
next
  fix s assume "digits_prefix 2 s = None"
  then show "digits_prefix 4 s = None" by (rule digits_prefix_4_imp_2)
next
  fix x y mo d assume "parse_periodo x = Some (y, mo, d)"
  then show "2000 \<le> y" using parse_periodo_date_valid by blast
next
  fix x y mo d assume "parse_periodo x = Some (y, mo, d)"
  then show "y \<le> 2099" using parse_periodo_date_valid by blast
next
  show "parse_periodo (Some ''janeiro19'') = Some (2019, 1, 1)"
    by (simp add: text_defs periodo_defs)
next
  show "parse_periodo (Some ''dezembro/2023'') = Some (2020, 12, 1)"
    by (simp add: text_defs periodo_defs)
qed

theorem parse_periodo_prefix_two_digits_witness:
  "(''marco'', 3) \<in> set meses \<and> is_digit (CHR ''2'') \<and> is_digit (CHR ''1'')
   \<and> parse_periodo (Some ''marco21, segunda remessa'') = Some (2021, 3, 1)
   \<and> parse_periodo (Some ''marco/2199'') = Some (2021, 3, 1)
   \<and> re_match_periodo ''maio/2024'' = Some (''maio'', ''20'')
   \<and> length ''20'' = 2
   \<and> digits_prefix 2 ''2a24'' = None \<and> digits_prefix 4 ''2a24'' = None
   \<and> parse_periodo (Some ''Maio/99'') = Some (2099, 5, 1) \<and> (2000::int) \<le> 2099"
proof -
  note T = parse_periodo_prefix_two_digits
  have h: "(''marco'', 3) \<in> set meses" "is_digit (CHR ''2'')" "is_digit (CHR ''1'')"
    by (simp_all add: meses_def is_digit_def)
  have a: "parse_periodo (Some (''marco'' @ [] @ CHR ''2'' # CHR ''1'' # '', segunda remessa''))
           = Some (2000 + int (10 * digit_val (CHR ''2'') + digit_val (CHR ''1'')), 3, 1)"
    using T[THEN conjunct1, rule_format, of "''marco''" 3 "[]" "CHR ''2''" "CHR ''1''"] h by simp
  have b: "parse_periodo (Some (''marco'' @ ''/'' @ CHR ''2'' # CHR ''1'' # ''99''))
           = Some (2000 + int (10 * digit_val (CHR ''2'') + digit_val (CHR ''1'')), 3, 1)"
    using T[THEN conjunct1, rule_format, of "''marco''" 3 "''/''" "CHR ''2''" "CHR ''1''"] h by simp
  have c: "re_match_periodo ''maio/2024'' = Some (''maio'', ''20'')"
    by (simp add: periodo_defs is_digit_def)
  have c': "length ''20'' = 2"
    using T[THEN conjunct2, THEN conjunct1, rule_format, OF c] .
  have d: "digits_prefix 2 ''2a24'' = None"
    by (simp add: digits_prefix_def is_digit_def)
  have d': "digits_prefix 4 ''2a24'' = None"
    using T[THEN conjunct2, THEN conjunct2, THEN conjunct1, rule_format, OF d] .
  have e: "parse_periodo (Some ''Maio/99'') = Some (2099, 5, 1)"
    by code_simp
  have e': "(2000::int) \<le> 2099 \<and> (2099::int) \<le> 2099"
    using T[THEN conjunct2, THEN conjunct2, THEN conjunct2, THEN conjunct1, rule_format, OF e] .
  from a b have "parse_periodo (Some ''marco21, segunda remessa'') = Some (2021, 3, 1)"
    "parse_periodo (Some ''marco/2199'') = Some (2021, 3, 1)"
    by (simp_all add: digit_val_def)
  with h c c' d d' e e' show ?thesis by simp
qed

section \<open>The autodetecting CSV loader\<close>



section \<open>Facts about tables and sorting\<close>

lemma sort_values_admits_set:
  "sort_values_admits key xs ys \<Longrightarrow> set ys = set xs"
  by (auto simp: sort_values_admits_def dest: mset_eq_setD)

lemma sort_values_admits_sort_key:
  "sort_values_admits key xs (sort_key key xs)"
  by (simp add: sort_values_admits_def)

lemma mapE_Inr_iff:
  "mapE f xs = Inr ys \<longleftrightarrow> map f xs = map Inr ys"
proof (induction xs arbitrary: ys)
  case Nil
  then show ?case by auto
next
  case (Cons x xs)
  show ?case
  proof (cases ys)
    case Nil
    then show ?thesis by (simp split: sum.splits)
  next
    case ys: (Cons y ys')
    show ?thesis
    proof (cases "f x")
      case (Inl e)
      then show ?thesis by (simp add: ys)
    next
      case (Inr z)
      have "(mapE f xs = Inr ys') = (map f xs = map Inr ys')" by (rule Cons.IH)
      then show ?thesis
        by (cases "mapE f xs") (auto simp: ys Inr)
    qed
  qed
qed

lemma mapE_Inr_nth:
  assumes "mapE f xs = Inr ys"
  shows "length ys = length xs" and "\<And>i. i < length xs \<Longrightarrow> f (xs ! i) = Inr (ys ! i)"
proof -
  from assms have m: "map f xs = map Inr ys" by (simp add: mapE_Inr_iff)
  then show l: "length ys = length xs" by (metis length_map)
  fix i assume "i < length xs"
  with m l show "f (xs ! i) = Inr (ys ! i)" by (metis nth_map)
qed


lemma filter_eq_singleton:
  "distinct xs \<Longrightarrow> k \<in> set xs \<Longrightarrow> filter (\<lambda>x. k = x) xs = [k]"
  by (induction xs) (auto simp: filter_empty_conv)

lemma sort_values_admits_unique:
  assumes adm: "sort_values_admits key xs ys" and d: "distinct (map key xs)"
  shows "ys = sort_key key xs"
proof -
  from adm have ms: "mset ys = mset xs" and so: "sorted (map key ys)"
    by (simp_all add: sort_values_admits_def)
  have set: "set ys = set xs" using ms by (rule mset_eq_setD)
  have dx: "distinct xs" and inj: "inj_on key (set xs)"
    using d by (simp_all add: distinct_map)
  have dy: "distinct ys" using ms dx by (metis mset_eq_imp_distinct_iff)
  have "\<And>k. k \<in> set ys \<Longrightarrow> filter (\<lambda>x. key k = key x) ys = filter (\<lambda>x. key k = key x) xs"
  proof -
    fix k assume k: "k \<in> set ys"
    have "filter (\<lambda>x. key k = key x) ys = filter (\<lambda>x. k = x) ys"
      using inj set k by (intro filter_cong) (auto dest: inj_onD)
    moreover have "filter (\<lambda>x. key k = key x) xs = filter (\<lambda>x. k = x) xs"
      using inj set k by (intro filter_cong) (auto dest: inj_onD)
    ultimately show "filter (\<lambda>x. key k = key x) ys = filter (\<lambda>x. key k = key x) xs"
      using filter_eq_singleton[OF dy k] filter_eq_singleton[OF dx] k set by simp
  qed
  then have "sort_key key xs = ys"
    using ms so by (intro properties_for_sort_key) auto
  then show ?thesis by simp
qed

section \<open>The numeric normalizers\<close>

lemma str_replace_remove:
  "str_replace a [] s = filter (\<lambda>c. c \<noteq> a) s"
  by (induction s) (simp_all add: str_replace_def)

lemma str_replace_char:
  "str_replace a [b] s = map (\<lambda>c. if c = a then b else c) s"
  by (induction s) (simp_all add: str_replace_def)

lemma to_numeric_empty: "to_numeric [] = NaN"
  by (simp add: num_defs)

lemma to_numeric_zero: "to_numeric ''0'' = Fin 0"
  by (simp add: num_defs text_defs)

lemma fillna_not_NaN: "fillna d v \<noteq> NaN"
  by (cases v) (simp_all add: fillna_def)

lemma normalize_quantidade_spec:
  "normalize_quantidade x = spec_normalize_quantity x"
proof (cases x)
  case None
  then show ?thesis
    by (simp add: normalize_quantidade_def spec_normalize_quantity_def fillna_str_def
        str_replace_remove str_replace_char fillna_def split: num.splits)
next
  case (Some s)
  show ?thesis
  proof (cases "s = []")
    case True
    with Some show ?thesis
      by (simp add: normalize_quantidade_def spec_normalize_quantity_def fillna_str_def
          str_replace_def to_numeric_empty to_numeric_zero fillna_def split: num.splits)
  next
    case False
    with Some show ?thesis
      by (simp add: normalize_quantidade_def spec_normalize_quantity_def fillna_str_def
          str_replace_remove str_replace_char fillna_def split: num.splits)
  qed
qed

lemma normalize_ui_cases:
  "normalize_ui x =
     (case to_numeric (py_strip (filter (\<lambda>c. c \<noteq> CHR ''.'') (fillna_str ''0'' x))) of
        Fin q \<Rightarrow> Inr (trunc0 q)
      | NaN \<Rightarrow> Inr 0
      | _ \<Rightarrow> Inl IntCastingNaNError)"
  by (simp add: normalize_ui_def str_replace_remove astype_int_def fillna_def trunc0_def
      split: num.splits)

text \<open>
  C1, as the claim states it, fails for the loader of the distribution by service:
  its normalizer does not turn the comma into a dot, so \<^verbatim>\<open>1.234,56\<close> becomes
  \<^verbatim>\<open>1234,56\<close>, does not parse and is 0, not 1234.56; and the cast to integer raises
  on a text that spells an infinity.
\<close>

theorem normalizer_ui_keeps_comma:
  "normalize_ui (Some ''1.234,56'') = Inr 0 \<and> rat_of_int 0 \<noteq> 1234.56
   \<and> normalize_ui (Some ''inf'') = Inl IntCastingNaNError"
  by (simp add: ui_defs num_defs text_defs)

text \<open>
  C1, amended. The normalizer of the acquisitions loader is the algorithm of the
  specification (missing or empty read as \<^verbatim>\<open>"0"\<close>, dots removed, commas turned into
  dots, parsed, 0 where it does not parse) and never returns the missing marker:
  \<^verbatim>\<open>3.100\<close> gives 3100, \<^verbatim>\<open>1.234,56\<close> gives 1234.56, the empty text, a missing cell
  and \<^verbatim>\<open>abc\<close> give 0. The normalizer of the distribution loader removes the dots,
  trims white space, parses, takes 0 where the text does not parse and truncates a
  number to an integer; it leaves commas alone: \<^verbatim>\<open>3.100\<close> gives 3100, the empty
  text, a missing cell and \<^verbatim>\<open>abc\<close> give 0, and so does \<^verbatim>\<open>1.234,56\<close>.
\<close>

theorem normalizers_total_and_examples:
  "(\<forall>x. normalize_quantidade x = spec_normalize_quantity x \<and> normalize_quantidade x \<noteq> NaN)
   \<and> normalize_quantidade (Some ''3.100'') = Fin 3100
   \<and> normalize_quantidade (Some ''1.234,56'') = Fin 1234.56
   \<and> normalize_quantidade (Some '''') = Fin 0
   \<and> normalize_quantidade None = Fin 0
   \<and> normalize_quantidade (Some ''abc'') = Fin 0
   \<and> normalize_quantidade (Some ''3100'') = Fin 3100
   \<and> (\<forall>x. normalize_ui x =
         (case to_numeric (py_strip (filter (\<lambda>c. c \<noteq> CHR ''.'') (fillna_str ''0'' x))) of
            Fin q \<Rightarrow> Inr (trunc0 q)
          | NaN \<Rightarrow> Inr 0
          | _ \<Rightarrow> Inl IntCastingNaNError))
   \<and> normalize_ui (Some ''3.100'') = Inr 3100
   \<and> normalize_ui (Some ''1.234,56'') = Inr 0
   \<and> normalize_ui (Some '''') = Inr 0
   \<and> normalize_ui None = Inr 0
   \<and> normalize_ui (Some ''abc'') = Inr 0
   \<and> normalize_ui (Some ''3100'') = Inr 3100"
proof -
  have a: "\<forall>x. normalize_quantidade x = spec_normalize_quantity x \<and> normalize_quantidade x \<noteq> NaN"
  proof
    fix x
    have "normalize_quantidade x \<noteq> NaN"
      unfolding normalize_quantidade_def by (rule fillna_not_NaN)
    then show "normalize_quantidade x = spec_normalize_quantity x \<and> normalize_quantidade x \<noteq> NaN"
      using normalize_quantidade_spec by simp
  qed
  have b: "normalize_quantidade (Some ''3.100'') = Fin 3100"
    "normalize_quantidade (Some ''1.234,56'') = Fin 1234.56"
    "normalize_quantidade (Some '''') = Fin 0"
    "normalize_quantidade None = Fin 0"
    "normalize_quantidade (Some ''abc'') = Fin 0"
    "normalize_quantidade (Some ''3100'') = Fin 3100"
    by (simp_all add: normalize_quantidade_def num_defs text_defs)
  have c: "\<forall>x. normalize_ui x =
         (case to_numeric (py_strip (filter (\<lambda>c. c \<noteq> CHR ''.'') (fillna_str ''0'' x))) of
            Fin q \<Rightarrow> Inr (trunc0 q)
          | NaN \<Rightarrow> Inr 0
          | _ \<Rightarrow> Inl IntCastingNaNError)"
    using normalize_ui_cases by blast
  have d: "normalize_ui (Some ''3.100'') = Inr 3100"
    "normalize_ui (Some ''1.234,56'') = Inr 0"
    "normalize_ui (Some '''') = Inr 0"
    "normalize_ui None = Inr 0"
    "normalize_ui (Some ''abc'') = Inr 0"
    "normalize_ui (Some ''3100'') = Inr 3100"
    by (simp_all add: ui_defs num_defs text_defs)
  from a b c d show ?thesis by blast
qed

theorem normalizers_total_and_examples_witness:
  "normalize_quantidade (Some ''7,5 '') = spec_normalize_quantity (Some ''7,5 '')
   \<and> normalize_quantidade (Some ''7,5 '') = Fin 7.5
   \<and> normalize_ui (Some '' 7.500'') = Inr 7500"
proof -
  note T = normalizers_total_and_examples
  have a: "normalize_quantidade (Some ''7,5 '') = spec_normalize_quantity (Some ''7,5 '')"
    using T[THEN conjunct1, rule_format, of "Some ''7,5 ''"] by simp
  have b: "normalize_quantidade (Some ''7,5 '') = Fin 7.5"
    by (simp add: normalize_quantidade_def num_defs text_defs)
  have c: "normalize_ui (Some '' 7.500'') = Inr 7500"
    by (simp add: ui_defs num_defs text_defs)
  from a b c show ?thesis by simp
qed

section \<open>The distribution page on an empty table\<close>









section \<open>The loader of the Ministry of Health file\<close>

lemma ms_clean_rows:
  assumes "ms_clean df = Inr xs" "r \<in> set xs"
  shows "\<exists>a q. select_column df ''Ano'' = Inr a \<and> select_column df ''Quantidade'' = Inr q
          \<and> ms_source r \<in> set (rows df)
          \<and> ms_Ano r = to_numeric_cell (ms_source r a) \<and> ms_Ano r \<noteq> NaN
          \<and> ms_Quantidade r = to_numeric_cell (ms_source r q) \<and> ms_Quantidade r \<noteq> NaN"
  using assms by (auto simp: ms_clean_def bindE_def split: sum.splits)

lemma ms_clean_drops:
  assumes "ms_clean df = Inr xs" "select_column df ''Ano'' = Inr a" "select_column df ''Quantidade'' = Inr q"
    "to_numeric_cell (r0 a) = NaN \<or> to_numeric_cell (r0 q) = NaN"
  shows "r0 \<notin> ms_source ` set xs"
  using assms by (auto simp: ms_clean_def bindE_def split: sum.splits)

text \<open>
  C10. \<^verbatim>\<open>load_ms_data\<close> parses \<^verbatim>\<open>Ano\<close> and \<^verbatim>\<open>Quantidade\<close> as they stand in the file:
  \<^verbatim>\<open>3.100\<close> is the number 3.1 and \<^verbatim>\<open>1,5\<close> does not parse. The loader always has a
  result; in a table it returns, the two values of every row are the plain parses of
  the row's own cells and neither is missing; and a raw row in which either cell fails
  to parse is not among the rows returned.
\<close>

theorem load_ms_data_plain_numerals:
  "to_numeric_cell (Some ''3.100'') = Fin 3.1
   \<and> to_numeric_cell (Some ''1,5'') = NaN
   \<and> (\<forall>df. \<exists>res. load_ms_data_admits df res)
   \<and> (\<forall>df ys r. load_ms_data_admits df (Inr ys) \<and> r \<in> set ys \<longrightarrow>
         (\<exists>a q. select_column df ''Ano'' = Inr a \<and> select_column df ''Quantidade'' = Inr q
            \<and> ms_source r \<in> set (rows df)
            \<and> ms_Ano r = to_numeric_cell (ms_source r a) \<and> ms_Ano r \<noteq> NaN
            \<and> ms_Quantidade r = to_numeric_cell (ms_source r q) \<and> ms_Quantidade r \<noteq> NaN))
   \<and> (\<forall>df ys a q r0. load_ms_data_admits df (Inr ys)
         \<and> select_column df ''Ano'' = Inr a \<and> select_column df ''Quantidade'' = Inr q
         \<and> (to_numeric_cell (r0 a) = NaN \<or> to_numeric_cell (r0 q) = NaN) \<longrightarrow>
         r0 \<notin> ms_source ` set ys)"
proof (intro conjI allI impI)
  show "to_numeric_cell (Some ''3.100'') = Fin 3.1"
    by (simp add: num_defs text_defs)
  show "to_numeric_cell (Some ''1,5'') = NaN"
    by (simp add: num_defs text_defs)
next
  fix df
  show "\<exists>res. load_ms_data_admits df res"
  proof (cases "ms_clean df")
    case (Inl e)
    then show ?thesis by (auto simp: load_ms_data_admits_def)
  next
    case (Inr xs)
    then have "load_ms_data_admits df (Inr (sort_key (\<lambda>r. num_key (ms_Ano r)) xs))"
      using sort_values_admits_sort_key by (auto simp: load_ms_data_admits_def)
    then show ?thesis ..
  qed
next
  fix df ys r
  assume "load_ms_data_admits df (Inr ys) \<and> r \<in> set ys"
  then obtain xs where "ms_clean df = Inr xs" "r \<in> set xs"
    by (auto simp: load_ms_data_admits_def split: sum.splits dest: sort_values_admits_set)
  then show "\<exists>a q. select_column df ''Ano'' = Inr a \<and> select_column df ''Quantidade'' = Inr q
            \<and> ms_source r \<in> set (rows df)
            \<and> ms_Ano r = to_numeric_cell (ms_source r a) \<and> ms_Ano r \<noteq> NaN
            \<and> ms_Quantidade r = to_numeric_cell (ms_source r q) \<and> ms_Quantidade r \<noteq> NaN"
    by (rule ms_clean_rows)
next
  fix df ys a q r0
  assume h: "load_ms_data_admits df (Inr ys)
         \<and> select_column df ''Ano'' = Inr a \<and> select_column df ''Quantidade'' = Inr q
         \<and> (to_numeric_cell (r0 a) = NaN \<or> to_numeric_cell (r0 q) = NaN)"
  then obtain xs where xs: "ms_clean df = Inr xs" "set ys = set xs"
    by (auto simp: load_ms_data_admits_def split: sum.splits dest: sort_values_admits_set)
  from h have "r0 \<notin> ms_source ` set xs"
    using ms_clean_drops[OF xs(1)] by blast
  with xs(2) show "r0 \<notin> ms_source ` set ys" by simp
qed

lemma ms_example_clean:
  "ms_clean ms_example = Inr [\<lparr>ms_source = ms_row1, ms_Ano = Fin 2020, ms_Quantidade = Fin 3.1\<rparr>]"
  by (simp add: ms_clean_def ms_example_def select_column_def rename_ms_def bindE_def
      ms_row1_def ms_row2_def num_defs text_defs)

theorem load_ms_data_plain_numerals_witness:
  "load_ms_data_admits ms_example
      (Inr [\<lparr>ms_source = ms_row1, ms_Ano = Fin 2020, ms_Quantidade = Fin 3.1\<rparr>])
   \<and> select_column ms_example ''Ano'' = Inr ''ano''
   \<and> select_column ms_example ''Quantidade'' = Inr ''quantidade''
   \<and> to_numeric_cell (ms_row1 ''quantidade'') = Fin 3.1
   \<and> to_numeric_cell (ms_row2 ''quantidade'') = NaN
   \<and> ms_row2 \<notin> ms_source ` set [\<lparr>ms_source = ms_row1, ms_Ano = Fin 2020, ms_Quantidade = Fin 3.1\<rparr>]
   \<and> Fin 3.1 = to_numeric_cell (ms_row1 ''quantidade'')
   \<and> (\<exists>res. load_ms_data_admits ms_example res)"
proof -
  note T = load_ms_data_plain_numerals
  let ?ys = "[\<lparr>ms_source = ms_row1, ms_Ano = Fin 2020, ms_Quantidade = Fin 3.1\<rparr>]"
  have adm: "load_ms_data_admits ms_example (Inr ?ys)"
    by (simp add: load_ms_data_admits_def ms_example_clean sort_values_admits_def)
  have sel: "select_column ms_example ''Ano'' = Inr ''ano''"
    "select_column ms_example ''Quantidade'' = Inr ''quantidade''"
    by (simp_all add: select_column_def ms_example_def rename_ms_def)
  have q1: "to_numeric_cell (ms_row1 ''quantidade'') = Fin 3.1"
    by (simp add: ms_row1_def num_defs text_defs)
  have q2: "to_numeric_cell (ms_row2 ''quantidade'') = NaN"
    by (simp add: ms_row2_def num_defs text_defs)
  have d: "ms_row2 \<notin> ms_source ` set ?ys"
    using T[THEN conjunct2, THEN conjunct2, THEN conjunct2, THEN conjunct2, rule_format,
        of ms_example ?ys "''ano''" "''quantidade''" ms_row2] adm sel q2 by blast
  have "\<exists>a q. select_column ms_example ''Ano'' = Inr a \<and> select_column ms_example ''Quantidade'' = Inr q
            \<and> ms_source (hd ?ys) \<in> set (rows ms_example)
            \<and> ms_Ano (hd ?ys) = to_numeric_cell (ms_source (hd ?ys) a) \<and> ms_Ano (hd ?ys) \<noteq> NaN
            \<and> ms_Quantidade (hd ?ys) = to_numeric_cell (ms_source (hd ?ys) q)
            \<and> ms_Quantidade (hd ?ys) \<noteq> NaN"
    using T[THEN conjunct2, THEN conjunct2, THEN conjunct2, THEN conjunct1, rule_format,
        of ms_example ?ys "hd ?ys"] adm by simp
  then have r: "Fin 3.1 = to_numeric_cell (ms_row1 ''quantidade'')"
    using sel by auto
  have e: "\<exists>res. load_ms_data_admits ms_example res"
    using T[THEN conjunct2, THEN conjunct2, THEN conjunct1, rule_format] .
  from adm sel q1 q2 d r e show ?thesis by blast
qed

section \<open>Rounding to float64\<close>

lemma round_half_even_int: "round_half_even (of_int m) = m"
  by (simp add: round_half_even_def)

lemma bitlen_le_53:
  assumes "0 < m" "m < 2 ^ 53"
  shows "bitlen m \<le> 53"
proof (rule ccontr)
  assume "\<not> bitlen m \<le> 53"
  then have "53 \<le> bitlen m - 1" by simp
  then have "(2::int) ^ 53 \<le> 2 ^ nat (bitlen m - 1)"
    by (intro power_increasing) auto
  also have "\<dots> \<le> m" using bitlen_bounds[OF assms(1)] by simp
  finally show False using assms(2) by simp
qed

lemma to_float64_scaled:
  assumes "q \<noteq> 0" "float64_exponent q = e" "q / pow2 e = of_int m"
  shows "to_float64 q = q"
proof -
  have p: "pow2 e \<noteq> 0" by (simp add: pow2_def)
  have "to_float64 q = of_int m * pow2 e"
    using assms by (simp add: to_float64_def round_half_even_int)
  also have "\<dots> = q" using assms(3)[symmetric] p by simp
  finally show ?thesis .
qed

lemma float64_exponent_int:
  assumes "0 < m"
  shows "float64_exponent (of_int m) = bitlen m - 53"
proof -
  have a: "\<bar>of_int m :: rat\<bar> = of_int m" using assms by simp
  have b1: "bitlen 1 = 1" by (simp add: compute_bitlen)
  have "(2::int) ^ nat (bitlen m - 1) \<le> m" using bitlen_bounds[OF assms] by simp
  then have "of_int ((2::int) ^ nat (bitlen m - 1)) \<le> (of_int m :: rat)"
    by (rule of_int_le_iff[THEN iffD2])
  moreover have "1 \<le> bitlen m" using assms by (simp add: bitlen_alt_def)
  ultimately have "pow2 (bitlen m - 1) \<le> of_int m"
    by (simp add: pow2_def)
  then show ?thesis
    by (simp add: float64_exponent_def a b1)
qed

lemma to_float64_pos_int:
  assumes "0 < m" "m \<le> 2 ^ 53"
  shows "to_float64 (of_int m) = of_int m"
proof (cases "m = 2 ^ 53")
  case True
  have "bitlen ((1::int) * 2 ^ 53) = bitlen 1 + int 53" by (rule bitlen_pow2) simp
  then have "bitlen m = 54" using True by (simp add: compute_bitlen[of 1])
  then have e: "float64_exponent (of_int m) = 1"
    using float64_exponent_int[OF assms(1)] by simp
  have d: "(of_int m :: rat) / pow2 1 = of_int (2 ^ 52)"
    using True by (simp add: pow2_def)
  have nz: "(of_int m :: rat) \<noteq> 0" using assms(1) by simp
  show ?thesis by (rule to_float64_scaled[OF nz e d])
next
  case False
  then have lt: "m < 2 ^ 53" using assms(2) by simp
  let ?e = "bitlen m - 53"
  have le: "?e \<le> 0" using bitlen_le_53[OF assms(1) lt] by simp
  have e: "float64_exponent (of_int m) = ?e" by (rule float64_exponent_int[OF assms(1)])
  have d: "(of_int m :: rat) / pow2 ?e = of_int (m * 2 ^ nat (- ?e))"
    using le by (simp add: pow2_def)
  have nz: "(of_int m :: rat) \<noteq> 0" using assms(1) by simp
  show ?thesis by (rule to_float64_scaled[OF nz e d])
qed

lemma float64_exponent_minus: "float64_exponent (- q) = float64_exponent q"
  by (simp add: float64_exponent_def)

lemma round_half_even_minus: "round_half_even (- x) = - round_half_even x"
proof (cases "x = of_int \<lfloor>x\<rfloor>")
  case True
  then obtain m where "x = of_int m" by metis
  then show ?thesis
    using round_half_even_int[of m] round_half_even_int[of "- m"] by simp
next
  case False
  then have c: "\<lceil>x\<rceil> = \<lfloor>x\<rfloor> + 1" by (simp add: ceiling_altdef)
  have f: "\<lfloor>- x\<rfloor> = - \<lfloor>x\<rfloor> - 1" using c by (simp add: ceiling_def)
  have fl: "of_int \<lfloor>x\<rfloor> < x" using False by (metis le_less of_int_floor_le)
  show ?thesis
    unfolding round_half_even_def Let_def f
    using fl by (auto simp: algebra_simps)
qed

lemma to_float64_minus: "to_float64 (- q) = - to_float64 q"
  by (simp add: to_float64_def float64_exponent_minus Let_def round_half_even_minus)

lemma to_float64_int:
  assumes "\<bar>n\<bar> \<le> 2 ^ 53"
  shows "to_float64 (of_int n) = of_int n"
proof -
  consider "n = 0" | "0 < n" | "n < 0" by linarith
  then show ?thesis
  proof cases
    case 1
    then show ?thesis by (simp add: to_float64_def)
  next
    case 2
    then show ?thesis using assms to_float64_pos_int by simp
  next
    case 3
    then have "to_float64 (of_int (- n)) = of_int (- n)"
      using assms by (intro to_float64_pos_int) auto
    then show ?thesis using to_float64_minus[of "of_int n"] by simp
  qed
qed

lemma magnitude_Fin: "magnitude (Fin q) = \<bar>q\<bar>"
  by (simp add: magnitude_def)

lemma magnitude_nonneg: "0 \<le> magnitude v"
  by (cases v) (simp_all add: magnitude_def)

lemma foldl_float64_exact:
  assumes "list_all int_valued vs" "a = of_int \<lfloor>a\<rfloor>"
    "\<bar>a\<bar> + sum_list (map magnitude vs) \<le> 2 ^ 53"
  shows "foldl float64_add (Fin a) (map as_float64 vs) = Fin a + sum_list vs"
  using assms
proof (induction vs arbitrary: a)
  case Nil
  then show ?case by (simp add: plus_num_def zero_num_def)
next
  case (Cons v vs)
  from Cons.prems(1) obtain q where v: "v = Fin q" and q: "q = of_int \<lfloor>q\<rfloor>"
    by (cases v) (auto simp: int_valued_def)
  have rest: "0 \<le> sum_list (map magnitude vs)"
    by (rule sum_list_nonneg) (auto simp: magnitude_nonneg)
  have b: "\<bar>a\<bar> + \<bar>q\<bar> + sum_list (map magnitude vs) \<le> 2 ^ 53"
    using Cons.prems(3) by (simp add: v magnitude_Fin add.assoc)
  have "\<bar>q\<bar> \<le> 2 ^ 53" using b rest by linarith
  then have "\<bar>\<lfloor>q\<rfloor>\<bar> \<le> 2 ^ 53"
    using q by (metis (no_types) of_int_abs of_int_le_iff of_int_numeral of_int_power)
  then have fq: "to_float64 q = q" using to_float64_int[of "\<lfloor>q\<rfloor>"] q by simp
  obtain m where m: "a + q = of_int m"
    using Cons.prems(2) q by (metis of_int_add)
  have "\<bar>a + q\<bar> \<le> 2 ^ 53" using b rest by linarith
  then have "\<bar>m\<bar> \<le> 2 ^ 53"
    using m by (metis (no_types) of_int_abs of_int_le_iff of_int_numeral of_int_power)
  then have fs: "to_float64 (a + q) = a + q" using to_float64_int[of m] m by simp
  have i: "a + q = of_int \<lfloor>a + q\<rfloor>" using m by simp
  have b': "\<bar>a + q\<bar> + sum_list (map magnitude vs) \<le> 2 ^ 53" using b by linarith
  have "foldl float64_add (Fin a) (map as_float64 (v # vs))
        = foldl float64_add (Fin (a + q)) (map as_float64 vs)"
    by (simp add: v as_float64_def fq fs)
  also have "\<dots> = Fin (a + q) + sum_list vs"
    using Cons.prems(1) i b' by (intro Cons.IH) auto
  also have "\<dots> = Fin a + sum_list (v # vs)"
  proof -
    have "Fin (a + q) = Fin a + Fin q" by (simp add: plus_num_def)
    then show ?thesis by (simp add: v add.assoc)
  qed
  finally show ?case .
qed

lemma float64_sum_exact:
  assumes "list_all int_valued vs" "sum_list (map magnitude vs) \<le> 2 ^ 53"
  shows "float64_sum vs = sum_list vs"
proof -
  have "foldl float64_add (Fin 0) (map as_float64 vs) = Fin 0 + sum_list vs"
    using assms by (intro foldl_float64_exact) auto
  then show ?thesis by (simp add: float64_sum_def zero_num_def[symmetric])
qed

lemma float64_sum_perm:
  assumes "mset xs = mset ys" "list_all int_valued xs" "sum_list (map magnitude xs) \<le> 2 ^ 53"
  shows "float64_sum xs = float64_sum ys"
proof -
  have s: "set xs = set ys" using assms(1) by (rule mset_eq_setD)
  then have iy: "list_all int_valued ys" using assms(2) by (simp add: list_all_iff)
  have "mset (map magnitude xs) = mset (map magnitude ys)" using assms(1) by (metis mset_map)
  then have "sum_list (map magnitude xs) = sum_list (map magnitude ys)"
    by (metis sum_mset_sum_list)
  then have my: "sum_list (map magnitude ys) \<le> 2 ^ 53" using assms(3) by simp
  have "sum_list xs = sum_list ys" using assms(1) by (metis sum_mset_sum_list)
  then show ?thesis
    using float64_sum_exact[OF assms(2,3)] float64_sum_exact[OF iy my] by simp
qed

section \<open>The acquisitions loader\<close>

lemmas acq_defs = load_coagulopatias_data_def melt_def year_cols_def mk_long_row_def long_key_def
  na_last_def normalize_quantidade_def

lemmas wide_defs = wide_example_def wide_row_1_def wide_row_2_def wide_row_3_def

lemma melt_clean_keep:
  "filter (\<lambda>(med, a, q). a \<noteq> NaN)
     (map (\<lambda>(med, a, q). (med, to_numeric a, normalize_quantidade q))
        (concat (map (\<lambda>c. map (\<lambda>r. (r ''medicamento'', c, r c)) rs) cs)))
   = concat (map (\<lambda>c. map (\<lambda>r. (r ''medicamento'', to_numeric c, normalize_quantidade (r c))) rs)
               (filter (\<lambda>c. to_numeric c \<noteq> NaN) cs))"
proof (induction cs)
  case Nil
  then show ?case by simp
next
  case (Cons c cs)
  have "filter (\<lambda>(med, a, q). a \<noteq> NaN)
          (map (\<lambda>(med, a, q). (med, to_numeric a, normalize_quantidade q))
             (map (\<lambda>r. (r ''medicamento'', c, r c)) rs))
        = (if to_numeric c \<noteq> NaN
           then map (\<lambda>r. (r ''medicamento'', to_numeric c, normalize_quantidade (r c))) rs else [])"
    by (induction rs) auto
  with Cons show ?case by simp
qed

lemma load_coagulopatias_data_eq:
  "load_coagulopatias_data df_raw =
     (if ''Quantidade'' \<in> set (columns df_raw) then Inl ValueError
      else if ''medicamento'' \<notin> set (columns df_raw) then Inl (KeyError ''medicamento'')
      else case mapE mk_long_row (long_cells df_raw) of
             Inl e \<Rightarrow> Inl e
           | Inr typed \<Rightarrow> Inr (sort_key long_key typed))"
  by (simp add: load_coagulopatias_data_def melt_def Let_def melt_clean_keep long_cells_def
      kept_year_cols_def)

lemma mk_long_row_Inr:
  "mk_long_row t = Inr row \<longleftrightarrow>
     (\<exists>y. fst (snd t) = Fin y \<and>
        row = \<lparr>medicamento = fst t, Ano = trunc0 y, Quantidade = snd (snd t)\<rparr>)"
  by (cases t) (auto simp: mk_long_row_def astype_int_def split: num.splits)

lemma mk_long_row_Inl:
  "mk_long_row t = Inl e \<Longrightarrow> e = IntCastingNaNError"
  by (cases t) (auto simp: mk_long_row_def astype_int_def split: num.splits sum.splits)

lemma load_typed:
  assumes "load_coagulopatias_data df_raw = Inr long"
  obtains typed where "mapE mk_long_row (long_cells df_raw) = Inr typed"
    "long = sort_key long_key typed" "mset long = mset typed"
  using assms by (auto simp: load_coagulopatias_data_eq split: if_splits sum.splits)

lemma typed_rows:
  assumes "mapE mk_long_row cells = Inr typed"
  shows "map (\<lambda>r. (medicamento r, Quantidade r)) typed = map (\<lambda>t. (fst t, snd (snd t))) cells"
proof (rule nth_equalityI)
  show "length (map (\<lambda>r. (medicamento r, Quantidade r)) typed)
        = length (map (\<lambda>t. (fst t, snd (snd t))) cells)"
    using mapE_Inr_nth(1)[OF assms] by simp
next
  fix i assume "i < length (map (\<lambda>r. (medicamento r, Quantidade r)) typed)"
  then have i: "i < length cells" "i < length typed"
    using mapE_Inr_nth(1)[OF assms] by simp_all
  then have "mk_long_row (cells ! i) = Inr (typed ! i)"
    using mapE_Inr_nth(2)[OF assms] by simp
  then show "map (\<lambda>r. (medicamento r, Quantidade r)) typed ! i
             = map (\<lambda>t. (fst t, snd (snd t))) cells ! i"
    using i by (auto simp: mk_long_row_Inr)
qed

lemma long_cells_member:
  "t \<in> set (long_cells df_raw) \<longleftrightarrow>
     (\<exists>c \<in> set (kept_year_cols df_raw). \<exists>r \<in> set (rows df_raw).
        t = (r ''medicamento'', to_numeric c, normalize_quantidade (r c)))"
  by (auto simp: long_cells_def)


lemma load_rows:
  assumes "load_coagulopatias_data df_raw = Inr long"
  shows "row \<in> set long \<longleftrightarrow>
     (\<exists>c \<in> set (kept_year_cols df_raw). \<exists>r \<in> set (rows df_raw). \<exists>y.
        to_numeric c = Fin y \<and>
        row = \<lparr>medicamento = r ''medicamento'', Ano = trunc0 y,
                Quantidade = normalize_quantidade (r c)\<rparr>)"
proof -
  from assms obtain typed where typed: "mapE mk_long_row (long_cells df_raw) = Inr typed"
    and ms: "mset long = mset typed" by (rule load_typed)
  have set: "set long = set typed" using ms by (rule mset_eq_setD)
  note nth = mapE_Inr_nth[OF typed]
  show ?thesis
  proof
    assume "row \<in> set long"
    then obtain i where i: "i < length typed" "typed ! i = row"
      using set by (auto simp: in_set_conv_nth)
    then have m: "mk_long_row (long_cells df_raw ! i) = Inr row"
      and mem: "long_cells df_raw ! i \<in> set (long_cells df_raw)"
      using nth by auto
    from mem obtain c r where cr: "c \<in> set (kept_year_cols df_raw)" "r \<in> set (rows df_raw)"
      "long_cells df_raw ! i = (r ''medicamento'', to_numeric c, normalize_quantidade (r c))"
      unfolding long_cells_member by blast
    with m show "\<exists>c \<in> set (kept_year_cols df_raw). \<exists>r \<in> set (rows df_raw). \<exists>y.
        to_numeric c = Fin y \<and>
        row = \<lparr>medicamento = r ''medicamento'', Ano = trunc0 y,
                Quantidade = normalize_quantidade (r c)\<rparr>"
      by (auto simp: mk_long_row_Inr)
  next
    assume "\<exists>c \<in> set (kept_year_cols df_raw). \<exists>r \<in> set (rows df_raw). \<exists>y.
        to_numeric c = Fin y \<and>
        row = \<lparr>medicamento = r ''medicamento'', Ano = trunc0 y,
                Quantidade = normalize_quantidade (r c)\<rparr>"
    then obtain c r y where cr: "c \<in> set (kept_year_cols df_raw)" "r \<in> set (rows df_raw)"
      "to_numeric c = Fin y"
      "row = \<lparr>medicamento = r ''medicamento'', Ano = trunc0 y,
                Quantidade = normalize_quantidade (r c)\<rparr>" by blast
    let ?t = "(r ''medicamento'', to_numeric c, normalize_quantidade (r c))"
    have "?t \<in> set (long_cells df_raw)" using cr(1,2) unfolding long_cells_member by blast
    then obtain i where i: "i < length (long_cells df_raw)" "long_cells df_raw ! i = ?t"
      by (auto simp: in_set_conv_nth)
    then have "mk_long_row ?t = Inr (typed ! i)" using nth(2) by metis
    then have "typed ! i = row" using cr(3,4) by (auto simp: mk_long_row_Inr)
    then show "row \<in> set long" using set i(1) nth(1) by (metis nth_mem)
  qed
qed


lemma kept_year_cols_member:
  "c \<in> set (kept_year_cols df_raw) \<longleftrightarrow>
     c \<in> set (columns df_raw) \<and> py_lower c \<noteq> ''medicamento'' \<and> to_numeric c \<noteq> NaN"
  by (auto simp: kept_year_cols_def year_cols_def)

lemma tie_table_loads:
  "load_coagulopatias_data tie_table =
     Inr [\<lparr>medicamento = Some ''Fator VIII'', Ano = 2019, Quantidade = Fin 5\<rparr>,
          \<lparr>medicamento = Some ''Fator VIII'', Ano = 2019, Quantidade = Fin 7\<rparr>]"
  by (simp add: tie_table_def acq_row_a_def acq_defs ui_defs num_defs text_defs)

lemma tie_table_swapped_loads:
  "load_coagulopatias_data tie_table_swapped =
     Inr [\<lparr>medicamento = Some ''Fator VIII'', Ano = 2019, Quantidade = Fin 7\<rparr>,
          \<lparr>medicamento = Some ''Fator VIII'', Ano = 2019, Quantidade = Fin 5\<rparr>]"
  by (simp add: tie_table_swapped_def acq_row_a_def acq_defs ui_defs num_defs text_defs)

lemma signed_table_loads:
  "load_coagulopatias_data signed_table =
     Inr [\<lparr>medicamento = Some ''Fator VIII'', Ano = 2020, Quantidade = Fin (- 5)\<rparr>,
          \<lparr>medicamento = Some ''Fator VIII'', Ano = 2021, Quantidade = PInf\<rparr>]"
  by (simp add: signed_table_def acq_row_a_def acq_defs ui_defs num_defs text_defs)

lemma wide_example_loads:
  "load_coagulopatias_data wide_example =
     Inr [\<lparr>medicamento = Some ''Fator IX'', Ano = 2019, Quantidade = Fin 3100\<rparr>,
          \<lparr>medicamento = Some ''Fator IX'', Ano = 2019, Quantidade = Fin 1\<rparr>,
          \<lparr>medicamento = Some ''Fator VIII'', Ano = 2019, Quantidade = Fin 0\<rparr>,
          \<lparr>medicamento = Some ''Fator IX'', Ano = 2020, Quantidade = Fin 1234.56\<rparr>,
          \<lparr>medicamento = Some ''Fator IX'', Ano = 2020, Quantidade = Fin 0\<rparr>,
          \<lparr>medicamento = Some ''Fator VIII'', Ano = 2020, Quantidade = Fin 10\<rparr>]"
  by (simp add: wide_defs acq_defs ui_defs num_defs text_defs)

subsection \<open>Round trip of the reshape\<close>

lemma sum_list_filter_mset_cong:
  fixes f :: "'a \<Rightarrow> 'b::comm_monoid_add"
  assumes "mset xs = mset ys"
  shows "sum_list (map f (filter P xs)) = sum_list (map f (filter P ys))"
proof -
  have "mset (map f (filter P xs)) = mset (map f (filter P ys))"
    using assms by (metis mset_filter mset_map)
  then show ?thesis by (metis sum_mset_sum_list)
qed

lemma sum_list_swap:
  fixes f :: "'a \<Rightarrow> 'c \<Rightarrow> 'b::comm_monoid_add"
  shows "sum_list (map (\<lambda>c. sum_list (map (\<lambda>r. f r c) rs)) cs)
         = sum_list (map (\<lambda>r. sum_list (map (\<lambda>c. f r c) cs)) rs)"
proof (induction cs)
  case Nil
  then show ?case by (simp add: sum_list_0)
next
  case (Cons c cs)
  then show ?case by (simp add: sum_list_addf)
qed

lemma sum_list_concat_cols:
  fixes g :: "'t \<Rightarrow> 'b::comm_monoid_add"
  shows "sum_list (map g (filter P (concat (map (\<lambda>c. map (h c) rs) cs))))
         = sum_list (map (\<lambda>c. sum_list (map g (filter P (map (h c) rs)))) cs)"
  by (induction cs) simp_all

lemma round_trip:
  assumes "load_coagulopatias_data df_raw = Inr long"
  shows "sum_list (map Quantidade (filter (\<lambda>r. medicamento r = ident) long))
         = sum_list (map (wide_row_sum df_raw)
                      (filter (\<lambda>r. r ''medicamento'' = ident) (rows df_raw)))"
proof -
  from assms obtain typed where typed: "mapE mk_long_row (long_cells df_raw) = Inr typed"
    and ms: "mset long = mset typed" by (rule load_typed)
  let ?cells = "long_cells df_raw"
  let ?rs = "filter (\<lambda>r. r ''medicamento'' = ident) (rows df_raw)"
  have 1: "sum_list (map Quantidade (filter (\<lambda>r. medicamento r = ident) long))
           = sum_list (map Quantidade (filter (\<lambda>r. medicamento r = ident) typed))"
    using ms by (rule sum_list_filter_mset_cong)
  have "map snd (filter (\<lambda>p. fst p = ident) (map (\<lambda>r. (medicamento r, Quantidade r)) typed))
        = map snd (filter (\<lambda>p. fst p = ident) (map (\<lambda>t. (fst t, snd (snd t))) ?cells))"
    using typed_rows[OF typed] by simp
  then have 2: "map Quantidade (filter (\<lambda>r. medicamento r = ident) typed)
        = map (\<lambda>t. snd (snd t)) (filter (\<lambda>t. fst t = ident) ?cells)"
    by (simp add: filter_map comp_def)
  have 3: "sum_list (map (\<lambda>t. snd (snd t)) (filter (\<lambda>t. fst t = ident) ?cells))
        = sum_list (map (\<lambda>c. sum_list (map (\<lambda>r. normalize_quantidade (r c)) ?rs))
                      (kept_year_cols df_raw))"
    unfolding long_cells_def sum_list_concat_cols
    by (simp add: filter_map comp_def)
  have 4: "sum_list (map (\<lambda>c. sum_list (map (\<lambda>r. normalize_quantidade (r c)) ?rs))
                      (kept_year_cols df_raw))
        = sum_list (map (wide_row_sum df_raw) ?rs)"
    unfolding wide_row_sum_def by (rule sum_list_swap)
  from 1 2 3 4 show ?thesis by simp
qed

lemma frac_table_loads:
  "load_coagulopatias_data frac_table =
     Inr [\<lparr>medicamento = Some ''Fator IX'', Ano = 2019, Quantidade = Fin (3 / 10)\<rparr>,
          \<lparr>medicamento = Some ''Fator IX'', Ano = 2020, Quantidade = Fin (2 / 10)\<rparr>,
          \<lparr>medicamento = Some ''Fator IX'', Ano = 2021, Quantidade = Fin (1 / 10)\<rparr>]"
  by (simp add: frac_table_def frac_row_def acq_defs ui_defs num_defs text_defs)

lemma frac_table_wide:
  "wide_values frac_table (Some ''Fator IX'') = [Fin (1 / 10), Fin (2 / 10), Fin (3 / 10)]"
  by (simp add: wide_values_def kept_year_cols_def year_cols_def frac_table_def frac_row_def
      normalize_quantidade_def num_defs text_defs)

lemma filter_cells_by_ident:
  "map (\<lambda>t. snd (snd t))
     (filter (\<lambda>t. fst t = ident)
        (concat (map (\<lambda>c. map (\<lambda>r. (r ''medicamento'', to_numeric c, normalize_quantidade (r c))) rs)
                   cs)))
   = concat (map (\<lambda>c. map (\<lambda>r. normalize_quantidade (r c))
                          (filter (\<lambda>r. r ''medicamento'' = ident) rs)) cs)"
  by (induction cs) (simp_all add: filter_map comp_def)

lemma mset_concat_transpose:
  "mset (concat (map (\<lambda>c. map (\<lambda>r. f r c) rs) cs))
   = mset (concat (map (\<lambda>r. map (\<lambda>c. f r c) cs) rs))"
proof (induction cs)
  case Nil
  then show ?case by (induction rs) simp_all
next
  case (Cons c cs)
  have "mset (concat (map (\<lambda>r. map (\<lambda>c. f r c) (c # cs)) rs))
        = mset (map (\<lambda>r. f r c) rs) + mset (concat (map (\<lambda>r. map (\<lambda>c. f r c) cs) rs))"
    by (induction rs) simp_all
  with Cons show ?case by simp
qed

lemma long_wide_mset:
  assumes "load_coagulopatias_data df_raw = Inr long"
  shows "mset (long_values long ident) = mset (wide_values df_raw ident)"
proof -
  from assms obtain typed where typed: "mapE mk_long_row (long_cells df_raw) = Inr typed"
    and ms: "mset long = mset typed" by (rule load_typed)
  let ?cells = "long_cells df_raw"
  let ?rs = "filter (\<lambda>r. r ''medicamento'' = ident) (rows df_raw)"
  have 1: "mset (long_values long ident) = mset (long_values typed ident)"
    unfolding long_values_def using ms by (metis mset_filter mset_map)
  have "map snd (filter (\<lambda>p. fst p = ident) (map (\<lambda>r. (medicamento r, Quantidade r)) typed))
        = map snd (filter (\<lambda>p. fst p = ident) (map (\<lambda>t. (fst t, snd (snd t))) ?cells))"
    using typed_rows[OF typed] by simp
  then have 2: "long_values typed ident
        = map (\<lambda>t. snd (snd t)) (filter (\<lambda>t. fst t = ident) ?cells)"
    by (simp add: long_values_def filter_map comp_def)
  have 3: "map (\<lambda>t. snd (snd t)) (filter (\<lambda>t. fst t = ident) ?cells)
        = concat (map (\<lambda>c. map (\<lambda>r. normalize_quantidade (r c)) ?rs) (kept_year_cols df_raw))"
    unfolding long_cells_def by (rule filter_cells_by_ident)
  from 1 2 3 mset_concat_transpose[of "\<lambda>r c. normalize_quantidade (r c)" ?rs "kept_year_cols df_raw"]
  show ?thesis by (simp add: wide_values_def)
qed

text \<open>
  C4, as the claim states it, fails for float64 sums: with the year columns in the
  file order 2021, 2020, 2019 and the cells \<^verbatim>\<open>0,1\<close>, \<^verbatim>\<open>0,2\<close>, \<^verbatim>\<open>0,3\<close>, the long rows
  come in year order, and their sum 0.3 + 0.2 + 0.1 is the double 0.6, while the sum
  of the wide row 0.1 + 0.2 + 0.3 is the next double, 0.6000000000000001.
\<close>

theorem reshape_float_sums_differ:
  "load_coagulopatias_data frac_table =
     Inr [\<lparr>medicamento = Some ''Fator IX'', Ano = 2019, Quantidade = Fin (3 / 10)\<rparr>,
          \<lparr>medicamento = Some ''Fator IX'', Ano = 2020, Quantidade = Fin (2 / 10)\<rparr>,
          \<lparr>medicamento = Some ''Fator IX'', Ano = 2021, Quantidade = Fin (1 / 10)\<rparr>]
   \<and> float64_sum (long_values
         [\<lparr>medicamento = Some ''Fator IX'', Ano = 2019, Quantidade = Fin (3 / 10)\<rparr>,
          \<lparr>medicamento = Some ''Fator IX'', Ano = 2020, Quantidade = Fin (2 / 10)\<rparr>,
          \<lparr>medicamento = Some ''Fator IX'', Ano = 2021, Quantidade = Fin (1 / 10)\<rparr>]
         (Some ''Fator IX'')) = Fin (5404319552844595 / 2 ^ 53)
   \<and> float64_sum (wide_values frac_table (Some ''Fator IX'')) = Fin (5404319552844596 / 2 ^ 53)
   \<and> Fin (5404319552844595 / 2 ^ 53) \<noteq> Fin (5404319552844596 / 2 ^ 53)"
proof -
  have a: "load_coagulopatias_data frac_table =
     Inr [\<lparr>medicamento = Some ''Fator IX'', Ano = 2019, Quantidade = Fin (3 / 10)\<rparr>,
          \<lparr>medicamento = Some ''Fator IX'', Ano = 2020, Quantidade = Fin (2 / 10)\<rparr>,
          \<lparr>medicamento = Some ''Fator IX'', Ano = 2021, Quantidade = Fin (1 / 10)\<rparr>]"
    by (rule frac_table_loads)
  have b: "float64_sum (long_values
         [\<lparr>medicamento = Some ''Fator IX'', Ano = 2019, Quantidade = Fin (3 / 10)\<rparr>,
          \<lparr>medicamento = Some ''Fator IX'', Ano = 2020, Quantidade = Fin (2 / 10)\<rparr>,
          \<lparr>medicamento = Some ''Fator IX'', Ano = 2021, Quantidade = Fin (1 / 10)\<rparr>]
         (Some ''Fator IX'')) = Fin (5404319552844595 / 2 ^ 53)"
    by code_simp
  have "float64_sum [Fin (1 / 10), Fin (2 / 10), Fin (3 / 10)] = Fin (5404319552844596 / 2 ^ 53)"
    by code_simp
  then have c: "float64_sum (wide_values frac_table (Some ''Fator IX''))
                = Fin (5404319552844596 / 2 ^ 53)"
    unfolding frac_table_wide .
  have d: "Fin (5404319552844595 / 2 ^ 53) \<noteq> Fin (5404319552844596 / 2 ^ 53)"
    by simp
  from a b c d show ?thesis by blast
qed

text \<open>
  C4, amended. When the acquisitions loader returns a table, then for every identifier
  the long rows of that identifier carry exactly the normalized cells of the
  identifier's raw rows across the kept year columns, each as often; so the two sums
  are equal as exact numbers (also when the wide side is summed row by row first), and
  equal as float64 sums when the values are integers whose absolute values add up to
  at most \<open>2 ^ 53\<close>, where no addition rounds.
\<close>

theorem reshape_round_trip:
  "\<forall>df_raw long ident.
     load_coagulopatias_data df_raw = Inr long \<longrightarrow>
       mset (long_values long ident) = mset (wide_values df_raw ident)
       \<and> sum_list (long_values long ident) = sum_list (wide_values df_raw ident)
       \<and> sum_list (map Quantidade (filter (\<lambda>r. medicamento r = ident) long))
           = sum_list (map (wide_row_sum df_raw)
                        (filter (\<lambda>r. r ''medicamento'' = ident) (rows df_raw)))
       \<and> (list_all int_valued (long_values long ident)
            \<and> sum_list (map magnitude (long_values long ident)) \<le> 2 ^ 53 \<longrightarrow>
            float64_sum (long_values long ident) = float64_sum (wide_values df_raw ident))"
proof (intro allI impI conjI)
  fix df_raw long ident
  assume l: "load_coagulopatias_data df_raw = Inr long"
  show m: "mset (long_values long ident) = mset (wide_values df_raw ident)"
    using l by (rule long_wide_mset)
  then show "sum_list (long_values long ident) = sum_list (wide_values df_raw ident)"
    by (metis sum_mset_sum_list)
  show "sum_list (map Quantidade (filter (\<lambda>r. medicamento r = ident) long))
           = sum_list (map (wide_row_sum df_raw)
                        (filter (\<lambda>r. r ''medicamento'' = ident) (rows df_raw)))"
    using l by (rule round_trip)
  assume "list_all int_valued (long_values long ident)
            \<and> sum_list (map magnitude (long_values long ident)) \<le> 2 ^ 53"
  then show "float64_sum (long_values long ident) = float64_sum (wide_values df_raw ident)"
    using m float64_sum_perm by blast
qed

theorem reshape_round_trip_witness:
  "mset (long_values
       [\<lparr>medicamento = Some ''Fator IX'', Ano = 2019, Quantidade = Fin (3 / 10)\<rparr>,
        \<lparr>medicamento = Some ''Fator IX'', Ano = 2020, Quantidade = Fin (2 / 10)\<rparr>,
        \<lparr>medicamento = Some ''Fator IX'', Ano = 2021, Quantidade = Fin (1 / 10)\<rparr>]
       (Some ''Fator IX''))
     = mset (wide_values frac_table (Some ''Fator IX''))
   \<and> wide_values frac_table (Some ''Fator IX'') = [Fin (1 / 10), Fin (2 / 10), Fin (3 / 10)]
   \<and> list_all int_valued [Fin 5, Fin 7]
   \<and> sum_list (map magnitude [Fin 5, Fin 7]) \<le> 2 ^ 53
   \<and> float64_sum (long_values
         [\<lparr>medicamento = Some ''Fator VIII'', Ano = 2019, Quantidade = Fin 5\<rparr>,
          \<lparr>medicamento = Some ''Fator VIII'', Ano = 2019, Quantidade = Fin 7\<rparr>]
         (Some ''Fator VIII''))
     = float64_sum (wide_values tie_table (Some ''Fator VIII''))"
proof -
  note T = reshape_round_trip
  have a: "mset (long_values
       [\<lparr>medicamento = Some ''Fator IX'', Ano = 2019, Quantidade = Fin (3 / 10)\<rparr>,
        \<lparr>medicamento = Some ''Fator IX'', Ano = 2020, Quantidade = Fin (2 / 10)\<rparr>,
        \<lparr>medicamento = Some ''Fator IX'', Ano = 2021, Quantidade = Fin (1 / 10)\<rparr>]
       (Some ''Fator IX''))
     = mset (wide_values frac_table (Some ''Fator IX''))"
    using T[rule_format, OF frac_table_loads, of "Some ''Fator IX''"] by blast
  have b: "wide_values frac_table (Some ''Fator IX'') = [Fin (1 / 10), Fin (2 / 10), Fin (3 / 10)]"
    by (rule frac_table_wide)
  have lv: "long_values
         [\<lparr>medicamento = Some ''Fator VIII'', Ano = 2019, Quantidade = Fin 5\<rparr>,
          \<lparr>medicamento = Some ''Fator VIII'', Ano = 2019, Quantidade = Fin 7\<rparr>]
         (Some ''Fator VIII'') = [Fin 5, Fin 7]"
    by (simp add: long_values_def)
  have c: "list_all int_valued [Fin 5, Fin 7]"
    by (simp add: int_valued_def)
  have d: "sum_list (map magnitude [Fin 5, Fin 7]) \<le> 2 ^ 53"
    by (simp add: magnitude_def)
  have e: "float64_sum (long_values
         [\<lparr>medicamento = Some ''Fator VIII'', Ano = 2019, Quantidade = Fin 5\<rparr>,
          \<lparr>medicamento = Some ''Fator VIII'', Ano = 2019, Quantidade = Fin 7\<rparr>]
         (Some ''Fator VIII''))
     = float64_sum (wide_values tie_table (Some ''Fator VIII''))"
    using T[rule_format, OF tie_table_loads, of "Some ''Fator VIII''"] c d
    unfolding lv by blast
  from a b c d e show ?thesis by blast
qed

subsection \<open>Value columns and column order\<close>

lemma mapE_mk_long_row:
  "mapE mk_long_row ts =
     (if \<forall>t \<in> set ts. \<not> isl (mk_long_row t) then Inr (map (\<lambda>t. projr (mk_long_row t)) ts)
      else Inl IntCastingNaNError)"
proof (induction ts)
  case Nil
  then show ?case by simp
next
  case (Cons t ts)
  show ?case
  proof (cases "mk_long_row t")
    case (Inl e)
    then show ?thesis using mk_long_row_Inl[OF Inl] by simp
  next
    case (Inr r)
    then show ?thesis using Cons.IH by simp
  qed
qed

lemma mset_concat_map_cong:
  assumes "mset cs = mset cs'"
  shows "mset (concat (map F cs)) = mset (concat (map F cs'))"
proof -
  have "mset (map (\<lambda>c. mset (F c)) cs) = mset (map (\<lambda>c. mset (F c)) cs')"
    using assms by (metis mset_map)
  then have "sum_list (map (\<lambda>c. mset (F c)) cs) = sum_list (map (\<lambda>c. mset (F c)) cs')"
    by (metis sum_mset_sum_list)
  then show ?thesis by (simp add: mset_concat comp_def)
qed

lemma long_cells_perm:
  assumes "mset (columns a) = mset (columns b)" "rows a = rows b"
  shows "mset (long_cells a) = mset (long_cells b)"
proof -
  have "mset (kept_year_cols a) = mset (kept_year_cols b)"
    using assms(1) by (simp add: kept_year_cols_def year_cols_def)
  then show ?thesis
    unfolding long_cells_def assms(2) by (rule mset_concat_map_cong)
qed

lemma load_perm:
  assumes c: "mset (columns a) = mset (columns b)" and r: "rows a = rows b"
  shows "map_sum id mset (load_coagulopatias_data a) = map_sum id mset (load_coagulopatias_data b)"
proof -
  have s: "set (columns a) = set (columns b)" using c by (rule mset_eq_setD)
  have m: "mset (long_cells a) = mset (long_cells b)" using c r by (rule long_cells_perm)
  then have sl: "set (long_cells a) = set (long_cells b)" by (rule mset_eq_setD)
  have "mset (map (\<lambda>t. projr (mk_long_row t)) (long_cells a))
        = mset (map (\<lambda>t. projr (mk_long_row t)) (long_cells b))"
    using m by (metis mset_map)
  then show ?thesis
    by (simp add: load_coagulopatias_data_eq mapE_mk_long_row s sl)
qed

lemma load_identifier_position:
  assumes "year_cols a = year_cols b" "set (columns a) = set (columns b)" "rows a = rows b"
  shows "load_coagulopatias_data a = load_coagulopatias_data b"
  using assms by (simp add: load_coagulopatias_data_def melt_def)

lemma melted_rows_cells:
  "melted_rows df_raw =
     map (\<lambda>t. \<lparr>medicamento = fst t,
                Ano = (case fst (snd t) of Fin y \<Rightarrow> trunc0 y | _ \<Rightarrow> 0),
                Quantidade = snd (snd t)\<rparr>)
       (long_cells df_raw)"
  by (simp add: melted_rows_def long_cells_def map_concat comp_def year_of_header_def)

lemma typed_is_melted:
  assumes "mapE mk_long_row (long_cells df_raw) = Inr typed"
  shows "typed = melted_rows df_raw"
  unfolding melted_rows_cells
proof (rule nth_equalityI)
  show "length typed = length (map (\<lambda>t. \<lparr>medicamento = fst t,
                Ano = (case fst (snd t) of Fin y \<Rightarrow> trunc0 y | _ \<Rightarrow> 0),
                Quantidade = snd (snd t)\<rparr>) (long_cells df_raw))"
    using mapE_Inr_nth(1)[OF assms] by simp
next
  fix i assume "i < length typed"
  then have i: "i < length (long_cells df_raw)" using mapE_Inr_nth(1)[OF assms] by simp
  then have "mk_long_row (long_cells df_raw ! i) = Inr (typed ! i)"
    using mapE_Inr_nth(2)[OF assms] by simp
  then show "typed ! i = map (\<lambda>t. \<lparr>medicamento = fst t,
                Ano = (case fst (snd t) of Fin y \<Rightarrow> trunc0 y | _ \<Rightarrow> 0),
                Quantidade = snd (snd t)\<rparr>) (long_cells df_raw) ! i"
    using i by (auto simp: mk_long_row_Inr)
qed

lemma load_is_sorted_melt:
  assumes "load_coagulopatias_data df_raw = Inr long"
  shows "long = sort_key long_key (melted_rows df_raw)"
proof -
  from assms obtain typed where typed: "mapE mk_long_row (long_cells df_raw) = Inr typed"
    and long: "long = sort_key long_key typed" by (rule load_typed)
  then show ?thesis using typed_is_melted by blast
qed

lemma load_sorted:
  assumes "load_coagulopatias_data df_raw = Inr long"
  shows "sorted (map long_key long)"
  unfolding load_is_sorted_melt[OF assms] by (rule sorted_sort_key)

lemma load_stable:
  assumes "load_coagulopatias_data df_raw = Inr long"
  shows "filter (\<lambda>r. long_key r = k) long = filter (\<lambda>r. long_key r = k) (melted_rows df_raw)"
  unfolding load_is_sorted_melt[OF assms] by (rule sort_key_stable)

lemma load_perm_distinct:
  assumes c: "mset (columns a) = mset (columns b)" and r: "rows a = rows b"
    and la: "load_coagulopatias_data a = Inr la" and d: "distinct (map long_key la)"
  shows "load_coagulopatias_data b = Inr la"
proof -
  from load_perm[OF c r] la obtain lb where lb: "load_coagulopatias_data b = Inr lb"
    and ms: "mset lb = mset la"
    by (cases "load_coagulopatias_data b") auto
  have "sort_values_admits long_key la lb"
    using ms load_sorted[OF lb] by (simp add: sort_values_admits_def)
  then have "lb = sort_key long_key la" using d by (rule sort_values_admits_unique)
  moreover have "sort_key long_key la = la"
    using load_sorted[OF la] by (rule sort_key_id_if_sorted)
  ultimately show ?thesis using lb by simp
qed

text \<open>
  C7, as the claim states it, fails: with two value columns whose headers spell the
  same year (\<^verbatim>\<open>2019\<close> and \<^verbatim>\<open>2019.0\<close>), exchanging the two columns exchanges the two
  rows of the result, which agree on both sort keys.
\<close>

theorem reshape_tie_order_follows_columns:
  "mset (columns tie_table_swapped) = mset (columns tie_table)
   \<and> rows tie_table_swapped = rows tie_table
   \<and> load_coagulopatias_data tie_table_swapped \<noteq> load_coagulopatias_data tie_table"
  by (simp add: tie_table_loads tie_table_swapped_loads)
    (simp add: tie_table_def tie_table_swapped_def)

lemma reshape_rows_and_permutations:
  "(\<forall>df_raw long row. load_coagulopatias_data df_raw = Inr long \<longrightarrow>
      (row \<in> set long \<longleftrightarrow>
         (\<exists>c \<in> set (columns df_raw). \<exists>r \<in> set (rows df_raw). \<exists>y.
            py_lower c \<noteq> ''medicamento'' \<and> to_numeric c = Fin y \<and>
            row = \<lparr>medicamento = r ''medicamento'', Ano = trunc0 y,
                    Quantidade = normalize_quantidade (r c)\<rparr>)))
   \<and> (\<forall>a b. year_cols a = year_cols b \<and> set (columns a) = set (columns b) \<and> rows a = rows b \<longrightarrow>
         load_coagulopatias_data a = load_coagulopatias_data b)
   \<and> (\<forall>a b. mset (columns a) = mset (columns b) \<and> rows a = rows b \<longrightarrow>
         map_sum id mset (load_coagulopatias_data a) = map_sum id mset (load_coagulopatias_data b))"
proof (intro conjI allI impI)
  fix df_raw long row
  assume l: "load_coagulopatias_data df_raw = Inr long"
  show "row \<in> set long \<longleftrightarrow>
         (\<exists>c \<in> set (columns df_raw). \<exists>r \<in> set (rows df_raw). \<exists>y.
            py_lower c \<noteq> ''medicamento'' \<and> to_numeric c = Fin y \<and>
            row = \<lparr>medicamento = r ''medicamento'', Ano = trunc0 y,
                    Quantidade = normalize_quantidade (r c)\<rparr>)"
  proof
    assume "row \<in> set long"
    then obtain c r y where "c \<in> set (kept_year_cols df_raw)" "r \<in> set (rows df_raw)"
      "to_numeric c = Fin y"
      "row = \<lparr>medicamento = r ''medicamento'', Ano = trunc0 y,
                Quantidade = normalize_quantidade (r c)\<rparr>"
      using load_rows[OF l] by blast
    then show "\<exists>c \<in> set (columns df_raw). \<exists>r \<in> set (rows df_raw). \<exists>y.
            py_lower c \<noteq> ''medicamento'' \<and> to_numeric c = Fin y \<and>
            row = \<lparr>medicamento = r ''medicamento'', Ano = trunc0 y,
                    Quantidade = normalize_quantidade (r c)\<rparr>"
      using kept_year_cols_member by blast
  next
    assume "\<exists>c \<in> set (columns df_raw). \<exists>r \<in> set (rows df_raw). \<exists>y.
            py_lower c \<noteq> ''medicamento'' \<and> to_numeric c = Fin y \<and>
            row = \<lparr>medicamento = r ''medicamento'', Ano = trunc0 y,
                    Quantidade = normalize_quantidade (r c)\<rparr>"
    then obtain c r y where c: "c \<in> set (columns df_raw)" "py_lower c \<noteq> ''medicamento''"
      "to_numeric c = Fin y" and r: "r \<in> set (rows df_raw)"
      "row = \<lparr>medicamento = r ''medicamento'', Ano = trunc0 y,
                Quantidade = normalize_quantidade (r c)\<rparr>"
      by blast
    from c have "c \<in> set (kept_year_cols df_raw)" by (simp add: kept_year_cols_member)
    with c(3) r show "row \<in> set long" using load_rows[OF l] by blast
  qed
next
  fix a b :: raw_table
  assume "year_cols a = year_cols b \<and> set (columns a) = set (columns b) \<and> rows a = rows b"
  then show "load_coagulopatias_data a = load_coagulopatias_data b"
    using load_identifier_position by blast
next
  fix a b :: raw_table
  assume "mset (columns a) = mset (columns b) \<and> rows a = rows b"
  then show "map_sum id mset (load_coagulopatias_data a) = map_sum id mset (load_coagulopatias_data b)"
    using load_perm by blast
qed

text \<open>
  C7, amended. The rows of the result are exactly the rows built from a column that
  is not called \<^verbatim>\<open>medicamento\<close> (compared in lower case) and whose header parses as a
  number, with the year the truncated number. The position of the identifier column
  does not affect the result (two layouts with the same columns and the same order of
  the other columns give the same result). Any reordering of the columns gives a
  result with the same rows, each as often, or the same failure. The result is in
  ascending order of (year, identifier), and the rows that agree on both are in the
  order of the melt, that is of the value columns; so when no two rows agree on year
  and identifier, a reordering of the columns gives the very same result.
\<close>

theorem reshape_value_columns:
  "(\<forall>df_raw long row. load_coagulopatias_data df_raw = Inr long \<longrightarrow>
      (row \<in> set long \<longleftrightarrow>
         (\<exists>c \<in> set (columns df_raw). \<exists>r \<in> set (rows df_raw). \<exists>y.
            py_lower c \<noteq> ''medicamento'' \<and> to_numeric c = Fin y \<and>
            row = \<lparr>medicamento = r ''medicamento'', Ano = trunc0 y,
                    Quantidade = normalize_quantidade (r c)\<rparr>)))
   \<and> (\<forall>a b. year_cols a = year_cols b \<and> set (columns a) = set (columns b) \<and> rows a = rows b \<longrightarrow>
         load_coagulopatias_data a = load_coagulopatias_data b)
   \<and> (\<forall>a b. mset (columns a) = mset (columns b) \<and> rows a = rows b \<longrightarrow>
         map_sum id mset (load_coagulopatias_data a) = map_sum id mset (load_coagulopatias_data b))
   \<and> (\<forall>df_raw long. load_coagulopatias_data df_raw = Inr long \<longrightarrow>
         sorted (map long_key long)
         \<and> (\<forall>k. filter (\<lambda>r. long_key r = k) long
                 = filter (\<lambda>r. long_key r = k) (melted_rows df_raw)))
   \<and> (\<forall>a b la. mset (columns a) = mset (columns b) \<and> rows a = rows b
         \<and> load_coagulopatias_data a = Inr la \<and> distinct (map long_key la) \<longrightarrow>
         load_coagulopatias_data b = Inr la)"
proof -
  note R = reshape_rows_and_permutations
  have 4: "\<forall>df_raw long. load_coagulopatias_data df_raw = Inr long \<longrightarrow>
         sorted (map long_key long)
         \<and> (\<forall>k. filter (\<lambda>r. long_key r = k) long
                 = filter (\<lambda>r. long_key r = k) (melted_rows df_raw))"
    using load_sorted load_stable by blast
  have 5: "\<forall>a b la. mset (columns a) = mset (columns b) \<and> rows a = rows b
         \<and> load_coagulopatias_data a = Inr la \<and> distinct (map long_key la) \<longrightarrow>
         load_coagulopatias_data b = Inr la"
    using load_perm_distinct by blast
  from R[THEN conjunct1] R[THEN conjunct2, THEN conjunct1] R[THEN conjunct2, THEN conjunct2] 4 5
  show ?thesis by (intro conjI)
qed

theorem reshape_value_columns_witness:
  "load_coagulopatias_data tie_table_moved = load_coagulopatias_data tie_table
   \<and> year_cols tie_table_moved = year_cols tie_table
   \<and> map_sum id mset (load_coagulopatias_data tie_table_swapped)
       = map_sum id mset (load_coagulopatias_data tie_table)
   \<and> mset (columns tie_table_swapped) = mset (columns tie_table)
   \<and> \<lparr>medicamento = Some ''Fator VIII'', Ano = 2020, Quantidade = Fin (- 5)\<rparr>
       \<in> set [\<lparr>medicamento = Some ''Fator VIII'', Ano = 2020, Quantidade = Fin (- 5)\<rparr>,
              \<lparr>medicamento = Some ''Fator VIII'', Ano = 2021, Quantidade = PInf\<rparr>]
   \<and> to_numeric ''2020'' = Fin 2020 \<and> to_numeric ''Obs'' = NaN
   \<and> sorted (map long_key
         [\<lparr>medicamento = Some ''Fator VIII'', Ano = 2019, Quantidade = Fin 7\<rparr>,
          \<lparr>medicamento = Some ''Fator VIII'', Ano = 2019, Quantidade = Fin 5\<rparr>])
   \<and> melted_rows tie_table_swapped
       = [\<lparr>medicamento = Some ''Fator VIII'', Ano = 2019, Quantidade = Fin 7\<rparr>,
          \<lparr>medicamento = Some ''Fator VIII'', Ano = 2019, Quantidade = Fin 5\<rparr>]
   \<and> mset (columns signed_table) = mset (columns signed_table_permuted)
   \<and> distinct (map long_key
         [\<lparr>medicamento = Some ''Fator VIII'', Ano = 2020, Quantidade = Fin (- 5)\<rparr>,
          \<lparr>medicamento = Some ''Fator VIII'', Ano = 2021, Quantidade = PInf\<rparr>])
   \<and> load_coagulopatias_data signed_table_permuted = load_coagulopatias_data signed_table"
proof -
  note T = reshape_value_columns
  have y: "year_cols tie_table_moved = year_cols tie_table"
    by (simp add: year_cols_def tie_table_moved_def tie_table_def text_defs)
  have s: "set (columns tie_table_moved) = set (columns tie_table)"
    "rows tie_table_moved = rows tie_table"
    by (auto simp: tie_table_moved_def tie_table_def)
  have a: "load_coagulopatias_data tie_table_moved = load_coagulopatias_data tie_table"
    using T[THEN conjunct2, THEN conjunct1, rule_format, of tie_table_moved tie_table] y s by blast
  have m: "mset (columns tie_table_swapped) = mset (columns tie_table)"
    "rows tie_table_swapped = rows tie_table"
    by (simp_all add: tie_table_swapped_def tie_table_def)
  have b: "map_sum id mset (load_coagulopatias_data tie_table_swapped)
       = map_sum id mset (load_coagulopatias_data tie_table)"
    using T[THEN conjunct2, THEN conjunct2, THEN conjunct1, rule_format,
        of tie_table_swapped tie_table] m by blast
  have n: "to_numeric ''2020'' = Fin 2020" "to_numeric ''Obs'' = NaN"
    by (simp_all add: num_defs text_defs)
  have "\<exists>c \<in> set (columns signed_table). \<exists>r \<in> set (rows signed_table). \<exists>y.
            py_lower c \<noteq> ''medicamento'' \<and> to_numeric c = Fin y \<and>
            \<lparr>medicamento = Some ''Fator VIII'', Ano = 2020, Quantidade = Fin (- 5)\<rparr>
              = \<lparr>medicamento = r ''medicamento'', Ano = trunc0 y,
                    Quantidade = normalize_quantidade (r c)\<rparr>"
    apply (rule bexI[of _ "''2020''"])
     apply (rule bexI[of _ acq_row_a])
      apply (rule exI[of _ 2020])
      apply (simp add: n acq_row_a_def normalize_quantidade_def trunc0_def num_defs text_defs)
     apply (simp add: signed_table_def)
    apply (simp add: signed_table_def)
    done
  then have c: "\<lparr>medicamento = Some ''Fator VIII'', Ano = 2020, Quantidade = Fin (- 5)\<rparr>
       \<in> set [\<lparr>medicamento = Some ''Fator VIII'', Ano = 2020, Quantidade = Fin (- 5)\<rparr>,
              \<lparr>medicamento = Some ''Fator VIII'', Ano = 2021, Quantidade = PInf\<rparr>]"
    using T[THEN conjunct1, rule_format, OF signed_table_loads] by blast
  let ?r7 = "\<lparr>medicamento = Some ''Fator VIII'', Ano = 2019, Quantidade = Fin 7\<rparr>"
  let ?r5 = "\<lparr>medicamento = Some ''Fator VIII'', Ano = 2019, Quantidade = Fin 5\<rparr>"
  note S = T[THEN conjunct2, THEN conjunct2, THEN conjunct2, THEN conjunct1, rule_format,
      OF tie_table_swapped_loads]
  have d: "sorted (map long_key [?r7, ?r5])" using S by blast
  have "filter (\<lambda>r. long_key r = (2019, False, ''Fator VIII'')) [?r7, ?r5]
        = filter (\<lambda>r. long_key r = (2019, False, ''Fator VIII'')) (melted_rows tie_table_swapped)"
    using S by blast
  moreover have "melted_rows tie_table_swapped = [?r7, ?r5]"
    by (simp add: melted_rows_def kept_year_cols_def year_cols_def year_of_header_def
        tie_table_swapped_def acq_row_a_def normalize_quantidade_def trunc0_def num_defs text_defs)
  ultimately have e: "melted_rows tie_table_swapped = [?r7, ?r5]" by simp
  have p: "mset (columns signed_table) = mset (columns signed_table_permuted)"
    "rows signed_table = rows signed_table_permuted"
    by (simp_all add: signed_table_def signed_table_permuted_def)
  have k: "distinct (map long_key
         [\<lparr>medicamento = Some ''Fator VIII'', Ano = 2020, Quantidade = Fin (- 5)\<rparr>,
          \<lparr>medicamento = Some ''Fator VIII'', Ano = 2021, Quantidade = PInf\<rparr>])"
    by (simp add: long_key_def)
  have "load_coagulopatias_data signed_table_permuted
        = Inr [\<lparr>medicamento = Some ''Fator VIII'', Ano = 2020, Quantidade = Fin (- 5)\<rparr>,
               \<lparr>medicamento = Some ''Fator VIII'', Ano = 2021, Quantidade = PInf\<rparr>]"
    using T[THEN conjunct2, THEN conjunct2, THEN conjunct2, THEN conjunct2, rule_format,
        of signed_table signed_table_permuted] p signed_table_loads k by blast
  then have f: "load_coagulopatias_data signed_table_permuted = load_coagulopatias_data signed_table"
    by (simp add: signed_table_loads)
  from a y b m n c d e p(1) k f show ?thesis by blast
qed

section \<open>The ranking of services\<close>

lemma rank_example_grouped:
  "groupby_sum rank_example = [(''A'', 50), (''B'', 30), (''C'', 80), (''D'', 10)]"
  by (simp add: groupby_sum_def rank_example_def svc_row_def List.map_filter_simps)

lemma rank_tie_example_grouped:
  "groupby_sum rank_tie_example = map (\<lambda>s. (s, 50)) tied_services"
  by (simp add: groupby_sum_def rank_tie_example_def tied_services_def svc_row_def
      List.map_filter_simps)

lemma groupby_sum_keys:
  "map fst (groupby_sum df) = sort (remdups (List.map_filter servico_de_saude df))"
  by (simp add: groupby_sum_def comp_def)

lemma groupby_sum_distinct: "distinct (map fst (groupby_sum df))"
  by (simp add: groupby_sum_keys)

lemma map_filter_member:
  "k \<in> set (List.map_filter f xs) \<longleftrightarrow> (\<exists>x \<in> set xs. f x = Some k)"
  by (induction xs) (auto simp: List.map_filter_simps split: option.splits)

lemma groupby_sum_member:
  "p \<in> set (groupby_sum df) \<longleftrightarrow>
     (\<exists>r \<in> set df. servico_de_saude r = Some (fst p)) \<and>
     snd p = sum_list (map total_geral (filter (\<lambda>r. servico_de_saude r = Some (fst p)) df))"
proof -
  obtain k t where p: "p = (k, t)" by (cases p)
  have "p \<in> set (groupby_sum df) \<longleftrightarrow>
        k \<in> set (List.map_filter servico_de_saude df) \<and>
        t = sum_list (map total_geral (filter (\<lambda>r. servico_de_saude r = Some k) df))"
    unfolding groupby_sum_def p by auto
  then show ?thesis by (simp add: p map_filter_member)
qed

lemma rank_admits_props:
  assumes "rank_admits df n res"
  shows "length res = min n (length (groupby_sum df))"
    and "sorted_wrt (\<lambda>p q. snd q \<le> snd p) res"
    and "set res \<subseteq> set (groupby_sum df)"
    and "distinct (map fst res)"
    and "\<And>p q. p \<in> set (groupby_sum df) \<Longrightarrow> p \<notin> set res \<Longrightarrow> q \<in> set res \<Longrightarrow> snd p \<le> snd q"
proof -
  let ?g = "groupby_sum df"
  from assms obtain ys where ms: "mset ys = mset ?g"
    and so: "sorted (map (\<lambda>p. - snd p) ys)" and res: "res = take n ys"
    by (auto simp: rank_admits_def sort_values_admits_def)
  have len: "length ys = length ?g" using ms by (metis size_mset)
  have set: "set ys = set ?g" using ms by (rule mset_eq_setD)
  have sw: "sorted_wrt (\<lambda>p q. snd q \<le> snd p) ys"
    using so by (simp add: sorted_map)
  show "length res = min n (length ?g)" using res len by (simp add: min.commute)
  show "sorted_wrt (\<lambda>p q. snd q \<le> snd p) res"
    unfolding res using sw by (rule sorted_wrt_take)
  show "set res \<subseteq> set ?g" using res set set_take_subset by fastforce
  have "mset (map fst ys) = mset (map fst ?g)" using ms by (metis mset_map)
  then have "distinct (map fst ys)"
    using groupby_sum_distinct by (metis mset_eq_imp_distinct_iff)
  then show "distinct (map fst res)" unfolding res by (simp add: take_map[symmetric])
  fix p q assume p: "p \<in> set ?g" "p \<notin> set res" and q: "q \<in> set res"
  from q obtain i where i: "i < length res" "res ! i = q" by (auto simp: in_set_conv_nth)
  then have i': "i < n" "i < length ys" "ys ! i = q" using res by auto
  from p(1) set have "p \<in> set ys" by simp
  then obtain j where j: "j < length ys" "ys ! j = p" by (auto simp: in_set_conv_nth)
  have "n \<le> j"
  proof (rule ccontr)
    assume "\<not> n \<le> j"
    then have "j < length (take n ys)" "take n ys ! j = p" using j by auto
    then have "p \<in> set (take n ys)" by (metis nth_mem)
    with p(2) res show False by simp
  qed
  then have "i < j" using i'(1) by simp
  then have "snd (ys ! j) \<le> snd (ys ! i)"
    using sw j(1) by (simp add: sorted_wrt_iff_nth_less)
  then show "snd p \<le> snd q" using i' j by simp
qed

lemma rank_admits_spec_rank: "rank_admits df n (spec_rank df n)"
  unfolding rank_admits_def spec_rank_def
  using sort_values_admits_sort_key by blast

lemma rank_admits_no_ties:
  assumes "distinct (map snd (groupby_sum df))"
  shows "rank_admits df n res \<longleftrightarrow> res = spec_rank df n"
proof
  assume "rank_admits df n res"
  then obtain ys where ys: "sort_values_admits (\<lambda>p. - snd p) (groupby_sum df) ys" "res = take n ys"
    by (auto simp: rank_admits_def)
  have "distinct (map (\<lambda>p. - snd p) (groupby_sum df))"
    using assms by (simp add: distinct_map inj_on_def)
  then have "ys = sort_key (\<lambda>p. - snd p) (groupby_sum df)"
    using ys(1) by (intro sort_values_admits_unique)
  then show "res = spec_rank df n" using ys(2) by (simp add: spec_rank_def)
next
  assume "res = spec_rank df n"
  then show "rank_admits df n res" by (simp add: rank_admits_spec_rank)
qed

text \<open>
  C5, as the claim states it, fails on ties: the sort by total uses the default sort
  kind, which is not stable. For seventeen services that all have the total 50, the
  ranking of five that starts from the last service is admitted as well as the stable
  one, which starts from the first.
\<close>

theorem rank_tie_order_not_fixed:
  "rank_admits rank_tie_example 5
     [(''S17'', 50), (''S16'', 50), (''S15'', 50), (''S14'', 50), (''S13'', 50)]
   \<and> spec_rank rank_tie_example 5
       = [(''S01'', 50), (''S02'', 50), (''S03'', 50), (''S04'', 50), (''S05'', 50)]
   \<and> [(''S17'', 50::int), (''S16'', 50), (''S15'', 50), (''S14'', 50), (''S13'', 50)]
       \<noteq> [(''S01'', 50), (''S02'', 50), (''S03'', 50), (''S04'', 50), (''S05'', 50)]"
proof -
  let ?ys = "rev (map (\<lambda>s. (s, 50::int)) tied_services)"
  have "mset ?ys = mset (groupby_sum rank_tie_example)"
    by (simp add: rank_tie_example_grouped)
  moreover have "sorted (map (\<lambda>p. - snd p) ?ys)"
    by (simp add: tied_services_def)
  ultimately have "sort_values_admits (\<lambda>p. - snd p) (groupby_sum rank_tie_example) ?ys"
    by (simp add: sort_values_admits_def)
  moreover have "[(''S17'', 50::int), (''S16'', 50), (''S15'', 50), (''S14'', 50), (''S13'', 50)]
                 = take 5 ?ys"
    by (simp add: tied_services_def)
  ultimately have a: "rank_admits rank_tie_example 5
      [(''S17'', 50), (''S16'', 50), (''S15'', 50), (''S14'', 50), (''S13'', 50)]"
    unfolding rank_admits_def by blast
  have b: "spec_rank rank_tie_example 5
      = [(''S01'', 50), (''S02'', 50), (''S03'', 50), (''S04'', 50), (''S05'', 50)]"
    by (simp add: spec_rank_def rank_tie_example_grouped tied_services_def)
  from a b show ?thesis by simp
qed

text \<open>
  C5, amended. Every ranking the code can return has min(n, number of services)
  entries, one per service, each with the sum of the service's \<^verbatim>\<open>Total Geral\<close>, in
  descending order of total, and no service left out has a larger total than one
  that is in; the stable ranking of the specification is one of the admitted
  results, and the only one when no two services have the same total. The totals
  A:50, B:30, C:80, D:10 with n = 2 give C:80, A:50.
\<close>

theorem rank_top_n:
  "(\<forall>df n res. rank_admits df n res \<longrightarrow>
      length res = min n (length (groupby_sum df))
      \<and> sorted_wrt (\<lambda>p q. snd q \<le> snd p) res
      \<and> distinct (map fst res)
      \<and> (\<forall>p \<in> set res. (\<exists>r \<in> set df. servico_de_saude r = Some (fst p))
            \<and> snd p = sum_list (map total_geral (filter (\<lambda>r. servico_de_saude r = Some (fst p)) df)))
      \<and> (\<forall>p \<in> set (groupby_sum df). p \<notin> set res \<longrightarrow> (\<forall>q \<in> set res. snd p \<le> snd q)))
   \<and> (\<forall>df n. rank_admits df n (spec_rank df n))
   \<and> (\<forall>df n res. distinct (map snd (groupby_sum df)) \<longrightarrow>
         (rank_admits df n res \<longleftrightarrow> res = spec_rank df n))
   \<and> (\<forall>res. rank_admits rank_example 2 res \<longleftrightarrow> res = [(''C'', 80), (''A'', 50)])"
proof (intro conjI allI impI ballI)
  fix df n res assume a: "rank_admits df n res"
  note P = rank_admits_props[OF a]
  show "length res = min n (length (groupby_sum df))" by (rule P(1))
  show "sorted_wrt (\<lambda>p q. snd q \<le> snd p) res" by (rule P(2))
  show "distinct (map fst res)" by (rule P(4))
  { fix p assume "p \<in> set res"
    then have "p \<in> set (groupby_sum df)" using P(3) by blast
    then show "\<exists>r \<in> set df. servico_de_saude r = Some (fst p)"
      and "snd p = sum_list (map total_geral (filter (\<lambda>r. servico_de_saude r = Some (fst p)) df))"
      by (simp_all add: groupby_sum_member) }
  { fix p q assume "p \<in> set (groupby_sum df)" "p \<notin> set res" "q \<in> set res"
    then show "snd p \<le> snd q" by (rule P(5)) }
next
  fix df n show "rank_admits df n (spec_rank df n)" by (rule rank_admits_spec_rank)
next
  fix df :: "hemo_row list" and n :: nat and res
  assume "distinct (map snd (groupby_sum df))"
  then show "rank_admits df n res \<longleftrightarrow> res = spec_rank df n" by (rule rank_admits_no_ties)
next
  fix res
  have "distinct (map snd (groupby_sum rank_example))"
    by (simp add: rank_example_grouped)
  then have "rank_admits rank_example 2 res \<longleftrightarrow> res = spec_rank rank_example 2"
    by (rule rank_admits_no_ties)
  moreover have "spec_rank rank_example 2 = [(''C'', 80), (''A'', 50)]"
    by (simp add: spec_rank_def rank_example_grouped)
  ultimately show "rank_admits rank_example 2 res \<longleftrightarrow> res = [(''C'', 80), (''A'', 50)]" by simp
qed

theorem rank_top_n_witness:
  "rank_admits rank_example 2 [(''C'', 80), (''A'', 50)]
   \<and> length [(''C'', 80::int), (''A'', 50)] = min 2 (length (groupby_sum rank_example))
   \<and> rank_admits rank_example 9 (spec_rank rank_example 9)
   \<and> spec_rank rank_example 9 = [(''C'', 80), (''A'', 50), (''B'', 30), (''D'', 10)]
   \<and> distinct (map snd (groupby_sum rank_example))
   \<and> [(''C'', 80), (''A'', 50)] = spec_rank rank_example 2"
proof -
  note T = rank_top_n
  have a: "rank_admits rank_example 2 [(''C'', 80), (''A'', 50)]"
    using T[THEN conjunct2, THEN conjunct2, THEN conjunct2, rule_format,
        of "[(''C'', 80), (''A'', 50)]"] by simp
  have b: "length [(''C'', 80::int), (''A'', 50)] = min 2 (length (groupby_sum rank_example))"
    using T[THEN conjunct1, rule_format, OF a] by blast
  have c: "rank_admits rank_example 9 (spec_rank rank_example 9)"
    using T[THEN conjunct2, THEN conjunct1, rule_format] .
  have d: "spec_rank rank_example 9 = [(''C'', 80), (''A'', 50), (''B'', 30), (''D'', 10)]"
    by (simp add: spec_rank_def rank_example_grouped)
  have e: "distinct (map snd (groupby_sum rank_example))"
    by (simp add: rank_example_grouped)
  have f: "[(''C'', 80), (''A'', 50)] = spec_rank rank_example 2"
    using T[THEN conjunct2, THEN conjunct2, THEN conjunct1, rule_format, OF e,
        of 2 "[(''C'', 80), (''A'', 50)]"] a by blast
  from a b c d e f show ?thesis by blast
qed

section \<open>Invariants of the loaded tables\<close>








end
